theory Spec2Isabelle
  imports Main "HOL-Library.AList"
begin

section \<open>Python run-time behaviour used by the script\<close>

text \<open>
  The script \<^verbatim>\<open>crosswords.py\<close> builds a CP-SAT model by side effect on a model object.
  Every Python exception that the script can raise while doing so is a value here, and
  a computation that may raise returns \<open>error + 'a\<close>.
\<close>

datatype error = IndexError | KeyError | ValueError

definition bind_err :: "error + 'a \<Rightarrow> ('a \<Rightarrow> error + 'b) \<Rightarrow> error + 'b" where
  "bind_err x f = (case x of Inl e \<Rightarrow> Inl e | Inr a \<Rightarrow> f a)"

text \<open>\<^verbatim>\<open>for x in xs: body\<close> over a state: stops at the first exception.\<close>

fun for_each :: "('a \<Rightarrow> 's \<Rightarrow> error + 's) \<Rightarrow> 'a list \<Rightarrow> 's \<Rightarrow> error + 's" where
  "for_each body [] s = Inr s"
| "for_each body (x # xs) s = bind_err (body x s) (for_each body xs)"

text \<open>A list comprehension \<^verbatim>\<open>[e(x) for x in xs]\<close> whose element expression may raise.\<close>

fun collect :: "('a \<Rightarrow> error + 'b) \<Rightarrow> 'a list \<Rightarrow> error + 'b list" where
  "collect e [] = Inr []"
| "collect e (x # xs) = bind_err (e x) (\<lambda>y. bind_err (collect e xs) (\<lambda>ys. Inr (y # ys)))"

text \<open>
  \<^verbatim>\<open>xs[i]\<close>: a negative index counts from the end of the list, and an index outside
  the list raises \<^verbatim>\<open>IndexError\<close>.
\<close>

definition py_index :: "'a list \<Rightarrow> int \<Rightarrow> error + 'a" where
  "py_index xs i =
     (if 0 \<le> i \<and> i < int (length xs) then Inr (xs ! nat i)
      else if i < 0 \<and> - int (length xs) \<le> i then Inr (xs ! nat (int (length xs) + i))
      else Inl IndexError)"

definition py_index2 :: "'a list list \<Rightarrow> int \<Rightarrow> int \<Rightarrow> error + 'a" where
  "py_index2 xss i j = bind_err (py_index xss i) (\<lambda>xs. py_index xs j)"

definition py_index3 :: "'a list list list \<Rightarrow> int \<Rightarrow> int \<Rightarrow> int \<Rightarrow> error + 'a" where
  "py_index3 xsss i j k = bind_err (py_index xsss i) (\<lambda>xss. py_index2 xss j k)"

text \<open>\<^verbatim>\<open>max(xs)\<close> raises \<^verbatim>\<open>ValueError\<close> on an empty sequence.\<close>

definition py_max :: "int list \<Rightarrow> error + int" where
  "py_max xs = (case xs of [] \<Rightarrow> Inl ValueError | y # ys \<Rightarrow> Inr (fold max ys y))"

section \<open>The word list\<close>

text \<open>
  \<^verbatim>\<open>' ABCDEFGHIJKLMNOPQRSTUVWXYZ'.find(letter)\<close>: the position of the letter in the
  alphabet string, or \<open>-1\<close> when it does not occur.
\<close>

fun find_from :: "nat \<Rightarrow> char list \<Rightarrow> char \<Rightarrow> int" where
  "find_from k [] ch = - 1"
| "find_from k (a # as) ch = (if a = ch then int k else find_from (Suc k) as ch)"

definition upper :: "char \<Rightarrow> char" where
  "upper ch = (if (97::nat) \<le> of_char ch \<and> of_char ch \<le> (122::nat)
                then char_of (of_char ch - (32::nat)) else ch)"

definition word_to_numbers :: "string \<Rightarrow> int list" where
  "word_to_numbers word = map (\<lambda>letter. find_from 0 '' ABCDEFGHIJKLMNOPQRSTUVWXYZ'' letter) (map upper word)"

text \<open>
  \<^verbatim>\<open>load_words\<close> after the file has been read: \<open>words\<close> are the stripped lines.
  The dictionary maps a word length to the list of tuples of that length; every tuple
  is the letter codes of a word followed by the word's identifier, which is its
  position in the file. A Python dictionary keeps its keys in insertion order, so it is
  an association list here: a new key goes to the end, an old key keeps its place.
\<close>

type_synonym wordlist = "(nat \<times> int list list) list"

fun load_words_loop :: "string list \<Rightarrow> int \<Rightarrow> wordlist \<Rightarrow> wordlist" where
  "load_words_loop [] i wordlist = wordlist"
| "load_words_loop (word # words) i wordlist =
     load_words_loop words (i + 1)
       (case map_of wordlist (length word) of
          Some ts \<Rightarrow> AList.update (length word) (ts @ [word_to_numbers word @ [i]]) wordlist
        | None \<Rightarrow> AList.update (length word) [word_to_numbers word @ [i]] wordlist)"

definition load_words :: "string list \<Rightarrow> wordlist" where
  "load_words words = load_words_loop words 0 []"

text \<open>\<^verbatim>\<open>wordlist[l]\<close> raises \<^verbatim>\<open>KeyError\<close> for a missing key.\<close>

definition py_lookup :: "wordlist \<Rightarrow> nat \<Rightarrow> error + int list list" where
  "py_lookup wordlist l = (case map_of wordlist l of None \<Rightarrow> Inl KeyError | Some ts \<Rightarrow> Inr ts)"

section \<open>The constraint model handed to the solver\<close>

text \<open>
  A variable of the model is its index in the model's variable list, as in CP-SAT;
  \<^verbatim>\<open>NewIntVar\<close> and \<^verbatim>\<open>NewBoolVar\<close> append a domain and return the new index. The
  name strings given to the variables carry no meaning and are left out.
\<close>

type_synonym var = nat

datatype expr = Const int | Var var | Plus expr expr | LinSum "expr list"

datatype bounded = Eq expr expr | Ne expr expr | Le expr expr | Ge expr expr

datatype lit = Pos var | Neg var

datatype constraint =
    Add bounded "lit option"
  | AddBoolAnd "lit list" "lit option"
  | AddAllDifferent "var list"

record cp_model =
  domains :: "(int \<times> int) list"
  constraints :: "constraint list"

definition CpModel :: cp_model where
  "CpModel = \<lparr>domains = [], constraints = []\<rparr>"

definition NewIntVar :: "int \<Rightarrow> int \<Rightarrow> cp_model \<Rightarrow> var \<times> cp_model" where
  "NewIntVar lo hi m = (length (domains m), m\<lparr>domains := domains m @ [(lo, hi)]\<rparr>)"

definition NewBoolVar :: "cp_model \<Rightarrow> var \<times> cp_model" where
  "NewBoolVar m = NewIntVar 0 1 m"

definition post :: "constraint \<Rightarrow> cp_model \<Rightarrow> cp_model" where
  "post c m = m\<lparr>constraints := constraints m @ [c]\<rparr>"

text \<open>Comprehensions that create variables: one per element, in order.\<close>

fun new_vars :: "(cp_model \<Rightarrow> var \<times> cp_model) \<Rightarrow> nat \<Rightarrow> cp_model \<Rightarrow> var list \<times> cp_model" where
  "new_vars mk 0 m = ([], m)"
| "new_vars mk (Suc n) m =
     (case mk m of (v, m1) \<Rightarrow> (case new_vars mk n m1 of (vs, m2) \<Rightarrow> (v # vs, m2)))"

fun new_vars2 :: "(cp_model \<Rightarrow> var \<times> cp_model) \<Rightarrow> nat \<Rightarrow> nat \<Rightarrow> cp_model \<Rightarrow> var list list \<times> cp_model" where
  "new_vars2 mk 0 n m = ([], m)"
| "new_vars2 mk (Suc k) n m =
     (case new_vars mk n m of (vs, m1) \<Rightarrow> (case new_vars2 mk k n m1 of (vss, m2) \<Rightarrow> (vs # vss, m2)))"

fun new_vars3 :: "(cp_model \<Rightarrow> var \<times> cp_model) \<Rightarrow> nat \<Rightarrow> nat \<Rightarrow> nat \<Rightarrow> cp_model \<Rightarrow> var list list list \<times> cp_model" where
  "new_vars3 mk 0 k n m = ([], m)"
| "new_vars3 mk (Suc j) k n m =
     (case new_vars2 mk k n m of (vss, m1) \<Rightarrow> (case new_vars3 mk j k n m1 of (vsss, m2) \<Rightarrow> (vss # vsss, m2)))"

subsection \<open>What a solution is\<close>

text \<open>
  The solver is an external collaborator. Its documented meaning of the constraints the
  script posts: an assignment of integers to the variables is a solution when every
  variable lies in its domain, every linear constraint holds unless its enforcement
  literal is false, every conjunction holds unless its enforcement literal is false,
  and the variables of an all-different constraint take pairwise distinct values.
\<close>

fun eval :: "(var \<Rightarrow> int) \<Rightarrow> expr \<Rightarrow> int" where
  "eval \<sigma> (Const k) = k"
| "eval \<sigma> (Var v) = \<sigma> v"
| "eval \<sigma> (Plus a b) = eval \<sigma> a + eval \<sigma> b"
| "eval \<sigma> (LinSum es) = sum_list (map (eval \<sigma>) es)"

fun bounded_holds :: "(var \<Rightarrow> int) \<Rightarrow> bounded \<Rightarrow> bool" where
  "bounded_holds \<sigma> (Eq a b) = (eval \<sigma> a = eval \<sigma> b)"
| "bounded_holds \<sigma> (Ne a b) = (eval \<sigma> a \<noteq> eval \<sigma> b)"
| "bounded_holds \<sigma> (Le a b) = (eval \<sigma> a \<le> eval \<sigma> b)"
| "bounded_holds \<sigma> (Ge a b) = (eval \<sigma> a \<ge> eval \<sigma> b)"

fun lit_true :: "(var \<Rightarrow> int) \<Rightarrow> lit \<Rightarrow> bool" where
  "lit_true \<sigma> (Pos v) = (\<sigma> v = 1)"
| "lit_true \<sigma> (Neg v) = (\<sigma> v = 0)"

fun enforced :: "(var \<Rightarrow> int) \<Rightarrow> lit option \<Rightarrow> bool" where
  "enforced \<sigma> None = True"
| "enforced \<sigma> (Some l) = lit_true \<sigma> l"

fun holds :: "(var \<Rightarrow> int) \<Rightarrow> constraint \<Rightarrow> bool" where
  "holds \<sigma> (Add b enf) = (if enforced \<sigma> enf then bounded_holds \<sigma> b else True)"
| "holds \<sigma> (AddBoolAnd ls enf) = (if enforced \<sigma> enf then list_all (lit_true \<sigma>) ls else True)"
| "holds \<sigma> (AddAllDifferent vs) = distinct (map \<sigma> vs)"

fun in_domains :: "(var \<Rightarrow> int) \<Rightarrow> nat \<Rightarrow> (int \<times> int) list \<Rightarrow> bool" where
  "in_domains \<sigma> v [] = True"
| "in_domains \<sigma> v ((lo, hi) # ds) = (lo \<le> \<sigma> v \<and> \<sigma> v \<le> hi \<and> in_domains \<sigma> (Suc v) ds)"

definition solution :: "(var \<Rightarrow> int) \<Rightarrow> cp_model \<Rightarrow> bool" where
  "solution \<sigma> m = (in_domains \<sigma> 0 (domains m) \<and> list_all (holds \<sigma>) (constraints m))"


section \<open>The reified table constraint\<close>

text \<open>
  \<^verbatim>\<open>possible_values = {i: set() for i in range(len(variables))}\<close> followed by
  \<^verbatim>\<open>for t in tuples: for i, j in enumerate(t): possible_values[i].add(j)\<close>.
  The dictionary has the keys \<open>0 .. len(variables) - 1\<close>, so it is a list here, and a
  position beyond it is the dictionary's \<^verbatim>\<open>KeyError\<close>.
\<close>

definition add_possible :: "nat \<times> int \<Rightarrow> int set list \<Rightarrow> error + int set list" where
  "add_possible ij pv =
     (if fst ij < length pv then Inr (pv[fst ij := insert (snd ij) (pv ! fst ij)]) else Inl KeyError)"

definition possible_values_of :: "nat \<Rightarrow> int list list \<Rightarrow> error + int set list" where
  "possible_values_of n tuples =
     for_each (\<lambda>t. for_each add_possible (enumerate 0 t)) tuples (replicate n {})"

text \<open>
  \<^verbatim>\<open>table(model, variables, tuples, option)\<close>. The statements of the function body, in
  order; the model is threaded through them.
\<close>

definition forbid_impossible :: "var list list \<Rightarrow> int set list \<Rightarrow> var \<Rightarrow> nat \<Rightarrow> int \<Rightarrow> cp_model \<Rightarrow> error + cp_model" where
  "forbid_impossible is_assigned possible_values option i j m =
     bind_err (py_index possible_values (int i)) (\<lambda>pv.
       if j \<notin> pv
       then bind_err (py_index2 is_assigned (int i) j) (\<lambda>a.
              Inr (post (Add (Eq (Var a) (Const 0)) (Some (Pos option))) m))
       else Inr m)"

definition one_value :: "var \<Rightarrow> var list \<Rightarrow> cp_model \<Rightarrow> error + cp_model" where
  "one_value option row m = Inr (post (Add (Eq (LinSum (map Var row)) (Const 1)) (Some (Pos option))) m)"

definition link_assigned :: "var list list \<Rightarrow> var list \<Rightarrow> nat \<Rightarrow> int \<Rightarrow> cp_model \<Rightarrow> error + cp_model" where
  "link_assigned is_assigned variables i j m =
     bind_err (py_index variables (int i)) (\<lambda>v.
     bind_err (py_index2 is_assigned (int i) j) (\<lambda>a.
       Inr (post (Add (Eq (Var v) (Const j)) (Some (Pos a))) m)))"

definition select_tuple :: "var list list \<Rightarrow> var list \<Rightarrow> nat \<times> int list \<Rightarrow> cp_model \<Rightarrow> error + cp_model" where
  "select_tuple is_assigned b it m =
     bind_err (collect (\<lambda>j. bind_err (py_index (snd it) (int j)) (\<lambda>tj. py_index2 is_assigned (int j) tj))
                 [0..<length (snd it)]) (\<lambda>as.
     bind_err (py_index b (int (fst it))) (\<lambda>bi.
       Inr (post (AddBoolAnd (map Pos as) (Some (Pos bi))) m)))"

definition table :: "cp_model \<Rightarrow> var list \<Rightarrow> int list list \<Rightarrow> var \<Rightarrow> error + cp_model" where
  "table model variables tuples option =
     (case new_vars NewBoolVar (length tuples) model of (b, model1) \<Rightarrow>
      bind_err (collect py_max tuples) (\<lambda>maxes.
      bind_err (py_max maxes) (\<lambda>max_value.
      bind_err (possible_values_of (length variables) tuples) (\<lambda>possible_values.
      (case new_vars2 NewBoolVar (length variables) (nat (max_value + 1)) model1 of (is_assigned, model2) \<Rightarrow>
       bind_err (for_each (\<lambda>i. for_each (forbid_impossible is_assigned possible_values option i) [0..max_value])
                   [0..<length variables] model2) (\<lambda>model3.
       bind_err (for_each (one_value option) is_assigned model3) (\<lambda>model4.
       bind_err (for_each (\<lambda>i. for_each (link_assigned is_assigned variables i) [0..max_value])
                   [0..<length variables] model4) (\<lambda>model5.
       bind_err (for_each (select_tuple is_assigned b) (enumerate 0 tuples) model5) (\<lambda>model6.
         Inr (post (Add (Eq (LinSum (map Var b)) (Const 1)) (Some (Pos option))) model6))))))))))"


section \<open>The grid model\<close>

text \<open>
  \<^verbatim>\<open>model.Add(cp_model.LinearExpr.Sum(list(...)) == 1).OnlyEnforceIf(guard)\<close>: the
  list of summands is evaluated first, then the guard.
\<close>

definition sum_is_one_if :: "error + var list \<Rightarrow> error + lit \<Rightarrow> cp_model \<Rightarrow> error + cp_model" where
  "sum_is_one_if summands guard model =
     bind_err summands (\<lambda>xs. bind_err guard (\<lambda>g.
       Inr (post (Add (Eq (LinSum (map Var xs)) (Const 1)) (Some g)) model)))"

definition pos_lit :: "error + var \<Rightarrow> error + lit" where
  "pos_lit x = bind_err x (\<lambda>v. Inr (Pos v))"

definition neg_lit :: "error + var \<Rightarrow> error + lit" where
  "neg_lit x = bind_err x (\<lambda>v. Inr (Neg v))"

definition force_false :: "error + var \<Rightarrow> cp_model \<Rightarrow> error + cp_model" where
  "force_false x model = bind_err x (\<lambda>v. Inr (post (Add (Eq (Var v) (Const 0)) None) model))"

text \<open>The body of \<^verbatim>\<open>for r ...: for c ...:\<close> under the comment \<^verbatim>\<open># Link B and L.\<close>\<close>

definition link_B_L :: "var list list \<Rightarrow> var list list \<Rightarrow> nat \<Rightarrow> nat \<Rightarrow> cp_model \<Rightarrow> error + cp_model" where
  "link_B_L L B r c model =
     bind_err (py_index2 L (int r) (int c)) (\<lambda>x.
     bind_err (py_index2 B (int r) (int c)) (\<lambda>b.
       Inr (post (Add (Ne (Var x) (Const 0)) (Some (Neg b)))
             (post (Add (Eq (Var x) (Const 0)) (Some (Pos b))) model))))"

text \<open>
  The body of the across loop for one \<open>(l, r, c)\<close>. \<open>A\<close>, \<open>IA\<close> and \<open>L\<close> are the
  script's global lists of variables.
\<close>

definition across_body ::
  "wordlist \<Rightarrow> nat \<Rightarrow> nat \<Rightarrow> var list list \<Rightarrow> var list list list \<Rightarrow> var list list \<Rightarrow>
   nat \<Rightarrow> nat \<Rightarrow> nat \<Rightarrow> cp_model \<Rightarrow> error + cp_model" where
  "across_body wordlist rows columns L A IA l r c model =
     (if map_of wordlist l = None then
        force_false (py_index3 A (int l) (int r) (int c)) model
      else if int l > int columns - int c then
        force_false (py_index3 A (int l) (int r) (int c)) model
      else
        bind_err
          (if l = columns then
             sum_is_one_if
               (collect (\<lambda>(i, j). py_index3 A (int i) (int r) (int c + int j))
                  (List.product [0..<columns + 1] [0..<columns - c]))
               (pos_lit (py_index3 A (int l) (int r) (int c))) model
           else if c = 0 then
             sum_is_one_if
               (collect (\<lambda>(i, j). py_index3 A (int i) (int r) (int c + int j))
                  (List.product [0..<columns + 1] [0..<l + 1]))
               (pos_lit (py_index3 A (int l) (int r) (int c))) model
           else if c + l = columns then
             sum_is_one_if
               (collect (\<lambda>(i, j). py_index3 A (int i) (int r) (int c + int j))
                  (List.product [0..<columns + 1] [0..<columns - c]))
               (pos_lit (py_index3 A (int l) (int r) (int c))) model
           else
             sum_is_one_if
               (collect (\<lambda>(i, j). py_index3 A (int i) (int r) (int c - 1 + int j))
                  (List.product [0..<columns + 1] [0..<l + 2]))
               (pos_lit (py_index3 A (int l) (int r) (int c))) model)
          (\<lambda>model1.
             bind_err (collect (\<lambda>i. py_index2 L (int r) (int c + int i)) [0..<l]) (\<lambda>letters.
             bind_err (py_index2 IA (int r) (int c)) (\<lambda>ia.
             bind_err (py_lookup wordlist l) (\<lambda>tuples.
             bind_err (py_index3 A (int l) (int r) (int c)) (\<lambda>a.
               table model1 (letters @ [ia]) tuples a))))))"

text \<open>The body of the down loop for one \<open>(l, r, c)\<close>.\<close>

definition down_body ::
  "wordlist \<Rightarrow> nat \<Rightarrow> nat \<Rightarrow> var list list \<Rightarrow> var list list list \<Rightarrow> var list list \<Rightarrow>
   nat \<Rightarrow> nat \<Rightarrow> nat \<Rightarrow> cp_model \<Rightarrow> error + cp_model" where
  "down_body wordlist rows columns L D ID l r c model =
     (if map_of wordlist l = None then
        force_false (py_index3 D (int l) (int r) (int c)) model
      else if int l > int rows - int r then
        force_false (py_index3 D (int l) (int r) (int c)) model
      else
        bind_err
          (if l = rows then
             sum_is_one_if
               (collect (\<lambda>(i, j). py_index3 D (int i) (int r + int j) (int c))
                  (List.product [0..<rows + 1] [0..<rows - r]))
               (pos_lit (py_index3 D (int l) (int r) (int c))) model
           else if r = 0 then
             sum_is_one_if
               (collect (\<lambda>(i, j). py_index3 D (int i) (int r + int j) (int c))
                  (List.product [0..<rows + 1] [0..<l + 1]))
               (pos_lit (py_index3 D (int l) (int r) (int c))) model
           else if r + l = rows then
             sum_is_one_if
               (collect (\<lambda>(i, j). py_index3 D (int i) (int r + int j) (int c))
                  (List.product [0..<rows + 1] [0..<rows - r]))
               (pos_lit (py_index3 D (int l) (int r) (int c))) model
           else
             sum_is_one_if
               (collect (\<lambda>(i, j). py_index3 D (int i) (int r - 1 + int j) (int c))
                  (List.product [0..<rows + 1] [0..<l + 2]))
               (pos_lit (py_index3 D (int l) (int r) (int c))) model)
          (\<lambda>model1.
             bind_err (collect (\<lambda>i. py_index2 L (int r + int i) (int c)) [0..<l]) (\<lambda>letters.
             bind_err (py_index2 ID (int r) (int c)) (\<lambda>idv.
             bind_err (py_lookup wordlist l) (\<lambda>tuples.
             bind_err (py_index3 D (int l) (int r) (int c)) (\<lambda>d.
               table model1 (letters @ [idv]) tuples d))))))"

text \<open>\<^verbatim>\<open>for l in range(n): for r in range(rows): for c in range(columns): body\<close>\<close>

definition for_lrc ::
  "nat \<Rightarrow> nat \<Rightarrow> nat \<Rightarrow> (nat \<Rightarrow> nat \<Rightarrow> nat \<Rightarrow> cp_model \<Rightarrow> error + cp_model) \<Rightarrow> cp_model \<Rightarrow> error + cp_model" where
  "for_lrc n rows columns body =
     for_each (\<lambda>l. for_each (\<lambda>r. for_each (\<lambda>c. body l r c) [0..<columns]) [0..<rows]) [0..<n]"

definition for_rc ::
  "nat \<Rightarrow> nat \<Rightarrow> (nat \<Rightarrow> nat \<Rightarrow> cp_model \<Rightarrow> error + cp_model) \<Rightarrow> cp_model \<Rightarrow> error + cp_model" where
  "for_rc rows columns body = for_each (\<lambda>r. for_each (\<lambda>c. body r c) [0..<columns]) [0..<rows]"

text \<open>\<^verbatim>\<open>model.AddAllDifferent([IA[r][c] for r ... for c ...] + [ID[r][c] for r ... for c ...])\<close>\<close>

definition all_words_different ::
  "nat \<Rightarrow> nat \<Rightarrow> var list list \<Rightarrow> var list list \<Rightarrow> cp_model \<Rightarrow> error + cp_model" where
  "all_words_different rows columns IA ID model =
     bind_err (collect (\<lambda>(r, c). py_index2 IA (int r) (int c)) (List.product [0..<rows] [0..<columns])) (\<lambda>xs.
     bind_err (collect (\<lambda>(r, c). py_index2 ID (int r) (int c)) (List.product [0..<rows] [0..<columns])) (\<lambda>ys.
       Inr (post (AddAllDifferent (xs @ ys)) model)))"

text \<open>The constraints for \<open>LLA\<close>: the body of \<^verbatim>\<open>for r in range(rows):\<close>.\<close>

definition lone_across_inner :: "var list list \<Rightarrow> var list list \<Rightarrow> nat \<Rightarrow> nat \<Rightarrow> cp_model \<Rightarrow> error + cp_model" where
  "lone_across_inner B LLA r c model =
     bind_err (py_index2 B (int r) (int c - 1)) (\<lambda>b1.
     bind_err (py_index2 B (int r) (int c + 1)) (\<lambda>b2.
     bind_err (py_index2 LLA (int r) (int c)) (\<lambda>ll.
       Inr (post (Add (Le (Plus (Var b1) (Var b2)) (Const 1)) (Some (Neg ll)))
             (post (Add (Eq (Plus (Var b1) (Var b2)) (Const 2)) (Some (Pos ll))) model)))))"

definition lone_across :: "nat \<Rightarrow> var list list \<Rightarrow> var list list \<Rightarrow> nat \<Rightarrow> cp_model \<Rightarrow> error + cp_model" where
  "lone_across columns B LLA r model =
     bind_err (py_index2 LLA (int r) 0) (\<lambda>ll0.
     bind_err (py_index2 B (int r) 1) (\<lambda>b1.
     bind_err (py_index2 LLA (int r) (int columns - 1)) (\<lambda>ll1.
     bind_err (py_index2 B (int r) (int columns - 2)) (\<lambda>b2.
       for_each (lone_across_inner B LLA r) [1..<columns - 1]
         (post (Add (Eq (Var ll1) (Var b2)) None)
           (post (Add (Eq (Var ll0) (Var b1)) None) model))))))"

text \<open>The constraints for \<open>LLD\<close>: the body of \<^verbatim>\<open>for c in range(columns):\<close>.\<close>

definition lone_down_inner :: "var list list \<Rightarrow> var list list \<Rightarrow> nat \<Rightarrow> nat \<Rightarrow> cp_model \<Rightarrow> error + cp_model" where
  "lone_down_inner B LLD c r model =
     bind_err (py_index2 B (int r - 1) (int c)) (\<lambda>b1.
     bind_err (py_index2 B (int r + 1) (int c)) (\<lambda>b2.
     bind_err (py_index2 LLD (int r) (int c)) (\<lambda>ll.
       Inr (post (Add (Le (Plus (Var b1) (Var b2)) (Const 1)) (Some (Neg ll)))
             (post (Add (Eq (Plus (Var b1) (Var b2)) (Const 2)) (Some (Pos ll))) model)))))"

definition lone_down :: "nat \<Rightarrow> var list list \<Rightarrow> var list list \<Rightarrow> nat \<Rightarrow> cp_model \<Rightarrow> error + cp_model" where
  "lone_down rows B LLD c model =
     bind_err (py_index2 LLD 0 (int c)) (\<lambda>ll0.
     bind_err (py_index2 B 1 (int c)) (\<lambda>b1.
     bind_err (py_index2 LLD (int rows - 1) (int c)) (\<lambda>ll1.
     bind_err (py_index2 B (int rows - 2) (int c)) (\<lambda>b2.
       for_each (lone_down_inner B LLD c) [1..<rows - 1]
         (post (Add (Eq (Var ll1) (Var b2)) None)
           (post (Add (Eq (Var ll0) (Var b1)) None) model))))))"

text \<open>The constraints for \<open>LLAB\<close> and \<open>LLDB\<close> (the same statements on \<open>LLA\<close> and on \<open>LLD\<close>).\<close>

definition lone_or_black :: "var list list \<Rightarrow> var list list \<Rightarrow> var list list \<Rightarrow> nat \<Rightarrow> nat \<Rightarrow> cp_model \<Rightarrow> error + cp_model" where
  "lone_or_black LL B LLB r c model =
     bind_err (py_index2 LL (int r) (int c)) (\<lambda>ll.
     bind_err (py_index2 B (int r) (int c)) (\<lambda>b.
     bind_err (py_index2 LLB (int r) (int c)) (\<lambda>llb.
       Inr (post (Add (Eq (Plus (Var ll) (Var b)) (Const 0)) (Some (Neg llb)))
             (post (Add (Ge (Plus (Var ll) (Var b)) (Const 1)) (Some (Pos llb))) model)))))"

text \<open>
  The coverage constraints: \<^verbatim>\<open>for i in range(columns+1) for j in range(min(i, c+1))\<close> is
  a generator whose inner range depends on the outer variable.
\<close>

definition covering :: "nat \<Rightarrow> nat \<Rightarrow> (nat \<times> nat) list" where
  "covering n k = concat (map (\<lambda>i. map (\<lambda>j. (i, j)) [0..<min i (k + 1)]) [0..<n + 1])"

definition across_covered :: "nat \<Rightarrow> var list list list \<Rightarrow> var list list \<Rightarrow> nat \<Rightarrow> nat \<Rightarrow> cp_model \<Rightarrow> error + cp_model" where
  "across_covered columns A LLAB r c model =
     sum_is_one_if
       (collect (\<lambda>(i, j). py_index3 A (int i) (int r) (int c - int j)) (covering columns c))
       (neg_lit (py_index2 LLAB (int r) (int c))) model"

definition down_covered :: "nat \<Rightarrow> var list list list \<Rightarrow> var list list \<Rightarrow> nat \<Rightarrow> nat \<Rightarrow> cp_model \<Rightarrow> error + cp_model" where
  "down_covered rows D LLDB r c model =
     sum_is_one_if
       (collect (\<lambda>(i, j). py_index3 D (int i) (int r - int j) (int c)) (covering rows r))
       (neg_lit (py_index2 LLDB (int r) (int c))) model"

definition not_lone_both :: "var list list \<Rightarrow> var list list \<Rightarrow> nat \<Rightarrow> nat \<Rightarrow> cp_model \<Rightarrow> error + cp_model" where
  "not_lone_both LLA LLD r c model =
     bind_err (py_index2 LLA (int r) (int c)) (\<lambda>a.
     bind_err (py_index2 LLD (int r) (int c)) (\<lambda>d.
       Inr (post (Add (Le (Plus (Var a) (Var d)) (Const 1)) None) model)))"

text \<open>The 3x3 windows and the limit on the number of black squares.\<close>

definition window_3x3 :: "var list list \<Rightarrow> nat \<Rightarrow> nat \<Rightarrow> cp_model \<Rightarrow> error + cp_model" where
  "window_3x3 B r c model =
     bind_err (collect (\<lambda>(i, j). py_index2 B (int i) (int j)) (List.product [r..<r + 3] [c..<c + 3])) (\<lambda>xs.
       Inr (post (Add (Le (LinSum (map Var xs)) (Const 2)) None) model))"

definition windows_3x3 :: "nat \<Rightarrow> nat \<Rightarrow> var list list \<Rightarrow> cp_model \<Rightarrow> error + cp_model" where
  "windows_3x3 rows columns B model =
     (if rows \<ge> 3 \<and> columns \<ge> 3
      then for_each (\<lambda>r. for_each (\<lambda>c. window_3x3 B r c) [0..<columns - 2]) [0..<rows - 2] model
      else Inr model)"

text \<open>
  \<^verbatim>\<open>int(rows*columns/5)\<close> divides in floating point and truncates. For a product below
  \<open>2^53\<close> the quotient of the true division rounds to a double that lies between
  the same two integers, so the truncation is the integer quotient; no grid of
  \<open>2^53\<close> cells can be built. The integer quotient is what is modelled.
\<close>

definition black_limit :: "nat \<Rightarrow> nat \<Rightarrow> int" where
  "black_limit rows columns = int (rows * columns) div 5"

definition limit_black :: "nat \<Rightarrow> nat \<Rightarrow> var list list \<Rightarrow> cp_model \<Rightarrow> error + cp_model" where
  "limit_black rows columns B model =
     Inr (post (Add (Le (LinSum (map (\<lambda>row. LinSum (map Var row)) B)) (Const (black_limit rows columns))) None) model)"

text \<open>
  The module-level script up to the call of the solver, with \<open>wordlist\<close>, \<open>rows\<close> and
  \<open>columns\<close> as parameters (the script fixes \<open>rows = columns = 8\<close>). The result keeps
  the model and the script's global lists of variables.
\<close>

record crossword =
  grid_model :: cp_model
  grid_L :: "var list list"
  grid_B :: "var list list"
  grid_A :: "var list list list"
  grid_IA :: "var list list"
  grid_D :: "var list list list"
  grid_ID :: "var list list"
  grid_LLA :: "var list list"
  grid_LLAB :: "var list list"
  grid_LLD :: "var list list"
  grid_LLDB :: "var list list"

definition id_bound :: "wordlist \<Rightarrow> nat \<Rightarrow> nat \<Rightarrow> int" where
  "id_bound wordlist rows columns =
     int (sum_list (map (\<lambda>l. case map_of wordlist l of Some ts \<Rightarrow> length ts | None \<Rightarrow> 0) (map fst wordlist))
          + rows * columns * 2)"

definition build_model :: "wordlist \<Rightarrow> nat \<Rightarrow> nat \<Rightarrow> error + crossword" where
  "build_model wordlist rows columns =
     (case new_vars2 (NewIntVar 0 26) rows columns CpModel of (L, m1) \<Rightarrow>
      case new_vars2 NewBoolVar rows columns m1 of (B, m2) \<Rightarrow>
      bind_err (for_rc rows columns (link_B_L L B) m2) (\<lambda>m3.
      case new_vars3 NewBoolVar (columns + 1) rows columns m3 of (A, m4) \<Rightarrow>
      case new_vars2 (NewIntVar 0 (id_bound wordlist rows columns)) rows columns m4 of (IA, m5) \<Rightarrow>
      bind_err (for_lrc (columns + 1) rows columns (across_body wordlist rows columns L A IA) m5) (\<lambda>m6.
      case new_vars3 NewBoolVar (rows + 1) rows columns m6 of (D, m7) \<Rightarrow>
      case new_vars2 (NewIntVar 0 (id_bound wordlist rows columns)) rows columns m7 of (ID, m8) \<Rightarrow>
      bind_err (for_lrc (rows + 1) rows columns (down_body wordlist rows columns L D ID) m8) (\<lambda>m9.
      bind_err (all_words_different rows columns IA ID m9) (\<lambda>m10.
      case new_vars2 NewBoolVar rows columns m10 of (LLA, m11) \<Rightarrow>
      bind_err (for_each (lone_across columns B LLA) [0..<rows] m11) (\<lambda>m12.
      case new_vars2 NewBoolVar rows columns m12 of (LLAB, m13) \<Rightarrow>
      bind_err (for_rc rows columns (lone_or_black LLA B LLAB) m13) (\<lambda>m14.
      bind_err (for_rc rows columns (across_covered columns A LLAB) m14) (\<lambda>m15.
      case new_vars2 NewBoolVar rows columns m15 of (LLD, m16) \<Rightarrow>
      bind_err (for_each (lone_down rows B LLD) [0..<columns] m16) (\<lambda>m17.
      case new_vars2 NewBoolVar rows columns m17 of (LLDB, m18) \<Rightarrow>
      bind_err (for_rc rows columns (lone_or_black LLD B LLDB) m18) (\<lambda>m19.
      bind_err (for_rc rows columns (down_covered rows D LLDB) m19) (\<lambda>m20.
      bind_err (for_rc rows columns (not_lone_both LLA LLD) m20) (\<lambda>m21.
      bind_err (windows_3x3 rows columns B m21) (\<lambda>m22.
      bind_err (limit_black rows columns B m22) (\<lambda>m23.
        Inr \<lparr>grid_model = m23, grid_L = L, grid_B = B, grid_A = A, grid_IA = IA,
             grid_D = D, grid_ID = ID, grid_LLA = LLA, grid_LLAB = LLAB,
             grid_LLD = LLD, grid_LLDB = LLDB\<rparr>))))))))))))))"

section \<open>Solving and printing\<close>

text \<open>
  The solver's answer is a status and, after a successful solve, a value for every
  variable. The script prints the status, and either gives up or prints the grid.
  What the script prints and which variables it asks the solver for are recorded.
\<close>

datatype cp_status = UNKNOWN | MODEL_INVALID | FEASIBLE | INFEASIBLE | OPTIMAL

fun StatusName :: "cp_status \<Rightarrow> string" where
  "StatusName UNKNOWN = ''UNKNOWN''"
| "StatusName MODEL_INVALID = ''MODEL_INVALID''"
| "StatusName FEASIBLE = ''FEASIBLE''"
| "StatusName INFEASIBLE = ''INFEASIBLE''"
| "StatusName OPTIMAL = ''OPTIMAL''"

record console =
  printed :: string
  value_calls :: "var list"

datatype run = Exited console | Finished console

definition newline :: string where
  "newline = [CHR 0x0A]"

definition print_cell :: "(var \<Rightarrow> int) \<Rightarrow> var list list \<Rightarrow> nat \<Rightarrow> nat \<Rightarrow> console \<Rightarrow> error + console" where
  "print_cell solver_value L r c out =
     bind_err (py_index2 L (int r) (int c)) (\<lambda>v.
     bind_err (py_index ''.ABCDEFGHIJKLMNOPQRSTUVWXYZ'' (solver_value v)) (\<lambda>ch.
       Inr \<lparr>printed = printed out @ [ch], value_calls = value_calls out @ [v]\<rparr>))"

definition print_row :: "(var \<Rightarrow> int) \<Rightarrow> nat \<Rightarrow> var list list \<Rightarrow> nat \<Rightarrow> console \<Rightarrow> error + console" where
  "print_row solver_value columns L r out =
     bind_err (for_each (print_cell solver_value L r) [0..<columns] out) (\<lambda>out1.
       Inr (out1\<lparr>printed := printed out1 @ newline\<rparr>))"

definition report :: "string \<Rightarrow> (var \<Rightarrow> int) \<Rightarrow> nat \<Rightarrow> nat \<Rightarrow> var list list \<Rightarrow> error + run" where
  "report status_name solver_value rows columns L =
     (let out = \<lparr>printed = ''Status: '' @ status_name @ newline @ newline, value_calls = []\<rparr> in
      if status_name \<noteq> ''OPTIMAL''
      then Inr (Exited (out\<lparr>printed := printed out @ ''We have a problem :('' @ newline\<rparr>))
      else bind_err (for_each (print_row solver_value columns L) [0..<rows] out) (\<lambda>out1.
             Inr (Finished out1)))"


definition matrix :: "nat \<Rightarrow> nat \<Rightarrow> 'a list list \<Rightarrow> bool" where
  "matrix rows columns M = (length M = rows \<and> list_all (\<lambda>row. length row = columns) M)"

definition cube :: "nat \<Rightarrow> nat \<Rightarrow> nat \<Rightarrow> 'a list list list \<Rightarrow> bool" where
  "cube n rows columns A = (length A = n \<and> list_all (matrix rows columns) A)"

definition transposed :: "nat \<Rightarrow> 'a list list \<Rightarrow> 'a list list" where
  "transposed columns M = map (\<lambda>c. map (\<lambda>row. row ! c) M) [0..<columns]"

definition start_window :: "nat \<Rightarrow> var list list list \<Rightarrow> nat \<Rightarrow> nat \<Rightarrow> nat \<Rightarrow> var list" where
  "start_window columns A r lo hi =
     concat (map (\<lambda>i. map (\<lambda>k. A ! i ! r ! k) [lo..<hi + 1]) [0..<columns + 1])"

definition across_window :: "nat \<Rightarrow> var list list list \<Rightarrow> nat \<Rightarrow> nat \<Rightarrow> nat \<Rightarrow> var list" where
  "across_window columns A l r c =
     (if l = columns then start_window columns A r c (columns - 1)
      else if c = 0 then start_window columns A r c (c + l)
      else if c + l = columns then start_window columns A r c (columns - 1)
      else start_window columns A r (c - 1) (c + l))"

definition posts :: "constraint list \<Rightarrow> cp_model \<Rightarrow> cp_model" where
  "posts cs m = m\<lparr>constraints := constraints m @ cs\<rparr>"

definition more_bools :: "nat \<Rightarrow> cp_model \<Rightarrow> cp_model" where
  "more_bools k m = m\<lparr>domains := domains m @ replicate k (0, 1)\<rparr>"

definition list_max :: "int list \<Rightarrow> int" where
  "list_max xs = fold max (tl xs) (hd xs)"

definition is_assigned_var :: "nat \<Rightarrow> nat \<Rightarrow> nat \<Rightarrow> nat \<Rightarrow> int \<Rightarrow> var" where
  "is_assigned_var n T M i j = n + T + i * M + nat j"

definition table_constraints :: "nat \<Rightarrow> var list \<Rightarrow> int list list \<Rightarrow> var \<Rightarrow> constraint list" where
  "table_constraints n variables tuples option =
     (let T = length tuples; max_value = list_max (map list_max tuples); M = nat (max_value + 1) in
      concat (map (\<lambda>i. concat (map (\<lambda>j.
          if j \<in> (\<lambda>t. t ! i) ` set tuples then []
          else [Add (Eq (Var (is_assigned_var n T M i j)) (Const 0)) (Some (Pos option))])
        [0..max_value])) [0..<length variables])
      @ map (\<lambda>i. Add (Eq (LinSum (map Var (map (is_assigned_var n T M i) [0..max_value]))) (Const 1))
                 (Some (Pos option))) [0..<length variables]
      @ concat (map (\<lambda>i. map (\<lambda>j.
          Add (Eq (Var (variables ! i)) (Const j)) (Some (Pos (is_assigned_var n T M i j))))
        [0..max_value]) [0..<length variables])
      @ map (\<lambda>it. AddBoolAnd (map (\<lambda>j. Pos (is_assigned_var n T M j (snd it ! j))) [0..<length (snd it)])
                  (Some (Pos (n + fst it)))) (enumerate 0 tuples)
      @ [Add (Eq (LinSum (map Var [n..<n + T])) (Const 1)) (Some (Pos option))])"



definition table_is_assigned :: "cp_model \<Rightarrow> var list \<Rightarrow> int list list \<Rightarrow> error + var list list" where
  "table_is_assigned model variables tuples =
     (case new_vars NewBoolVar (length tuples) model of (b, model1) \<Rightarrow>
      bind_err (collect py_max tuples) (\<lambda>maxes.
      bind_err (py_max maxes) (\<lambda>max_value.
      (case new_vars2 NewBoolVar (length variables) (nat (max_value + 1)) model1 of (is_assigned, model2) \<Rightarrow>
         Inr is_assigned))))"

section \<open>Evaluation rules\<close>

text \<open>
  A weak congruence rule for \<open>bind_err\<close> makes the simplifier run the model builder
  the way Python does: the first computation is evaluated before the second is entered.
\<close>

lemma bind_err_weak_cong: "x = y \<Longrightarrow> bind_err x f = bind_err y f"
  by simp

lemma bind_err_Inr [simp]: "bind_err (Inr a) f = f a"
  by (simp add: bind_err_def)

lemma bind_err_Inl [simp]: "bind_err (Inl e) f = Inl e"
  by (simp add: bind_err_def)

lemma bind_err_eq_Inr: "bind_err x f = Inr b \<longleftrightarrow> (\<exists>a. x = Inr a \<and> f a = Inr b)"
  by (cases x) simp_all

lemmas table_eval = table_def NewBoolVar_def NewIntVar_def post_def py_max_def py_index_def
  py_index2_def py_index3_def possible_values_of_def add_possible_def forbid_impossible_def
  one_value_def link_assigned_def select_tuple_def eval_nat_numeral upto.simps

lemmas build_eval = table_eval build_model_def CpModel_def for_rc_def for_lrc_def link_B_L_def
  across_body_def down_body_def sum_is_one_if_def pos_lit_def neg_lit_def force_false_def
  all_words_different_def lone_across_def lone_across_inner_def lone_down_def
  lone_down_inner_def lone_or_black_def covering_def across_covered_def down_covered_def
  not_lone_both_def window_3x3_def windows_3x3_def black_limit_def limit_black_def
  id_bound_def py_lookup_def load_words_def word_to_numbers_def upper_def

lemmas eval_cong = bind_err_weak_cong prod.case_cong_weak sum.case_cong_weak list.case_cong_weak
  option.case_cong_weak

section \<open>The single-cell grid\<close>

text \<open>
  C10. With \<open>rows = columns = 1\<close> and no word of length 1 (and no empty word) in the
  word list, the script does not reach the solver: the first constraint on \<open>LLA\<close>
  reads \<^verbatim>\<open>B[r][1]\<close> in a row of one cell, which raises \<^verbatim>\<open>IndexError\<close>.
\<close>

theorem single_cell_grid_raises:
  assumes "map_of wordlist 0 = None" and "map_of wordlist 1 = None"
  shows "build_model wordlist 1 1 = Inl IndexError"
  using assms by (simp add: build_eval cong: eval_cong)

theorem single_cell_grid_raises_witness:
  "map_of (load_words [''AB'', ''CAB'']) 0 = None \<and> map_of (load_words [''AB'', ''CAB'']) 1 = None
   \<and> build_model (load_words [''AB'', ''CAB'']) 1 1 = Inl IndexError"
proof -
  have a: "map_of (load_words [''AB'', ''CAB'']) 0 = None" by (simp add: load_words_def)
  have b: "map_of (load_words [''AB'', ''CAB'']) 1 = None" by (simp add: load_words_def)
  show ?thesis using a b single_cell_grid_raises [OF a b] by simp
qed

section \<open>Loops and indexing that do not raise\<close>

lemma py_index_nat [simp]: "i < length xs \<Longrightarrow> py_index xs (int i) = Inr (xs ! i)"
  by (simp add: py_index_def)

lemma py_index_beyond: "length xs \<le> i \<Longrightarrow> py_index xs (int i) = Inl IndexError"
  by (simp add: py_index_def)

lemma py_index2_nat [simp]:
  "i < length xss \<Longrightarrow> j < length (xss ! i) \<Longrightarrow> py_index2 xss (int i) (int j) = Inr (xss ! i ! j)"
  by (simp add: py_index2_def)

lemma py_index3_nat [simp]:
  "i < length xsss \<Longrightarrow> j < length (xsss ! i) \<Longrightarrow> k < length (xsss ! i ! j) \<Longrightarrow>
   py_index3 xsss (int i) (int j) (int k) = Inr (xsss ! i ! j ! k)"
  by (simp add: py_index3_def)

lemma for_each_append: "for_each body (xs @ ys) s = bind_err (for_each body xs s) (for_each body ys)"
  by (induction xs arbitrary: s) (simp_all add: bind_err_def split: sum.splits)

lemma for_each_pure:
  "(\<And>x s. x \<in> set xs \<Longrightarrow> body x s = Inr (g x s)) \<Longrightarrow> for_each body xs s = Inr (fold g xs s)"
  by (induction xs arbitrary: s) simp_all

lemma collect_pure:
  "(\<And>x. x \<in> set xs \<Longrightarrow> e x = Inr (g x)) \<Longrightarrow> collect e xs = Inr (map g xs)"
  by (induction xs) simp_all

lemma collect_eq_Inr_length: "collect e xs = Inr ys \<Longrightarrow> length ys = length xs"
  by (induction xs arbitrary: ys) (auto simp: bind_err_eq_Inr)

section \<open>Solving and printing: only OPTIMAL is decoded\<close>

lemma StatusName_OPTIMAL: "StatusName status = ''OPTIMAL'' \<longleftrightarrow> status = OPTIMAL"
  by (cases status) simp_all

lemma print_cells:
  assumes "r < length L" and "n \<le> length (L ! r)"
    and "\<And>v. v \<in> set (L ! r) \<Longrightarrow> 0 \<le> solver_value v \<and> solver_value v \<le> 26"
  shows "for_each (print_cell solver_value L r) [0..<n] out =
           Inr \<lparr>printed = printed out @ map (\<lambda>c. ''.ABCDEFGHIJKLMNOPQRSTUVWXYZ'' ! nat (solver_value (L ! r ! c))) [0..<n],
                value_calls = value_calls out @ take n (L ! r)\<rparr>"
  using assms(2)
proof (induction n)
  case 0
  then show ?case by simp
next
  case (Suc n)
  have v: "py_index ''.ABCDEFGHIJKLMNOPQRSTUVWXYZ'' (solver_value (L ! r ! n))
             = Inr (''.ABCDEFGHIJKLMNOPQRSTUVWXYZ'' ! nat (solver_value (L ! r ! n)))"
    using assms(3) [of "L ! r ! n"] Suc.prems by (simp add: py_index_def)
  from Suc show ?case
    using assms(1) by (simp add: for_each_append print_cell_def v take_Suc_conv_app_nth)
qed

lemma print_rows:
  assumes "n \<le> length L" and "\<And>row. row \<in> set L \<Longrightarrow> length row = columns"
    and "\<And>v. v \<in> set (concat L) \<Longrightarrow> 0 \<le> solver_value v \<and> solver_value v \<le> 26"
  shows "\<exists>out1. for_each (print_row solver_value columns L) [0..<n] out = Inr out1
           \<and> value_calls out1 = value_calls out @ concat (take n L)"
  using assms(1)
proof (induction n)
  case 0
  then show ?case by simp
next
  case (Suc n)
  then obtain out1 where o: "for_each (print_row solver_value columns L) [0..<n] out = Inr out1"
    "value_calls out1 = value_calls out @ concat (take n L)" by auto
  have len: "length (L ! n) = columns" using Suc.prems assms(2) by simp
  have vals: "\<And>v. v \<in> set (L ! n) \<Longrightarrow> 0 \<le> solver_value v \<and> solver_value v \<le> 26"
  proof -
    fix v assume "v \<in> set (L ! n)"
    moreover have "L ! n \<in> set L" using Suc.prems by simp
    ultimately have "v \<in> set (concat L)" by auto
    then show "0 \<le> solver_value v \<and> solver_value v \<le> 26" by (rule assms(3))
  qed
  have cells: "for_each (print_cell solver_value L n) [0..<columns] out1 =
           Inr \<lparr>printed = printed out1 @ map (\<lambda>c. ''.ABCDEFGHIJKLMNOPQRSTUVWXYZ'' ! nat (solver_value (L ! n ! c))) [0..<columns],
                value_calls = value_calls out1 @ take columns (L ! n)\<rparr>"
    using Suc.prems len by (intro print_cells vals) simp_all
  have "print_row solver_value columns L n out1 =
          Inr \<lparr>printed = printed out1 @ map (\<lambda>c. ''.ABCDEFGHIJKLMNOPQRSTUVWXYZ'' ! nat (solver_value (L ! n ! c))) [0..<columns] @ newline,
               value_calls = value_calls out1 @ L ! n\<rparr>"
    unfolding print_row_def cells using len by simp
  with o Suc.prems show ?case
    by (simp add: for_each_append take_Suc_conv_app_nth)
qed

text \<open>
  C5. The script decodes the grid exactly when the status name is \<open>OPTIMAL\<close>. For every
  other status name it prints the status and the failure message and exits, having asked
  the solver for no value; among the solver's statuses only \<open>OPTIMAL\<close> has that name. For
  \<open>OPTIMAL\<close>, a well-formed grid and a value in \<open>0..26\<close> for each letter variable (the other
  variables may have any value) it finishes, having asked for every letter variable in row
  order.
\<close>

theorem report_decodes_only_optimal:
  "(status_name \<noteq> ''OPTIMAL'' \<longrightarrow>
      report status_name solver_value rows columns L =
        Inr (Exited \<lparr>printed = ''Status: '' @ status_name @ newline @ newline @ ''We have a problem :('' @ newline,
                     value_calls = []\<rparr>))
   \<and> (StatusName status = ''OPTIMAL'' \<longleftrightarrow> status = OPTIMAL)
   \<and> (length L = rows \<and> (\<forall>row\<in>set L. length row = columns)
        \<and> (\<forall>v\<in>set (concat L). 0 \<le> solver_value v \<and> solver_value v \<le> 26) \<longrightarrow>
      (\<exists>out. report ''OPTIMAL'' solver_value rows columns L = Inr (Finished out)
             \<and> value_calls out = concat L))"
proof (intro conjI impI)
  assume "status_name \<noteq> ''OPTIMAL''"
  then show "report status_name solver_value rows columns L =
        Inr (Exited \<lparr>printed = ''Status: '' @ status_name @ newline @ newline @ ''We have a problem :('' @ newline,
                     value_calls = []\<rparr>)"
    by (simp add: report_def Let_def)
next
  show "StatusName status = ''OPTIMAL'' \<longleftrightarrow> status = OPTIMAL"
    by (rule StatusName_OPTIMAL)
next
  assume a: "length L = rows \<and> (\<forall>row\<in>set L. length row = columns)
        \<and> (\<forall>v\<in>set (concat L). 0 \<le> solver_value v \<and> solver_value v \<le> 26)"
  then have "\<exists>out1. for_each (print_row solver_value columns L) [0..<rows]
                 \<lparr>printed = ''Status: '' @ ''OPTIMAL'' @ newline @ newline, value_calls = []\<rparr> = Inr out1
           \<and> value_calls out1 = value_calls \<lparr>printed = ''Status: '' @ ''OPTIMAL'' @ newline @ newline, value_calls = []\<rparr> @ concat (take rows L)"
    by (intro print_rows) auto
  with a show "\<exists>out. report ''OPTIMAL'' solver_value rows columns L = Inr (Finished out)
             \<and> value_calls out = concat L"
    by (auto simp: report_def Let_def)
qed

theorem report_decodes_only_optimal_witness:
  "report (StatusName FEASIBLE) (\<lambda>v. if v < 4 then int v else 1000) 2 2 [[0, 1], [2, 3]] =
     Inr (Exited \<lparr>printed = ''Status: FEASIBLE'' @ newline @ newline @ ''We have a problem :('' @ newline,
                  value_calls = []\<rparr>)
   \<and> (\<exists>out. report (StatusName OPTIMAL) (\<lambda>v. if v < 4 then int v else 1000) 2 2 [[0, 1], [2, 3]] =
               Inr (Finished out)
             \<and> value_calls out = [0, 1, 2, 3])"
  using report_decodes_only_optimal [of "StatusName FEASIBLE" "\<lambda>v. if v < 4 then int v else 1000" 2 2
      "[[0, 1], [2, 3]]" OPTIMAL]
  by simp

lemma matrix_nth: "matrix rows columns M \<Longrightarrow> r < rows \<Longrightarrow> length (M ! r) = columns"
  by (simp add: matrix_def list_all_length)

lemma matrix_length: "matrix rows columns M \<Longrightarrow> length M = rows"
  by (simp add: matrix_def)

lemma cube_nth: "cube n rows columns A \<Longrightarrow> i < n \<Longrightarrow> matrix rows columns (A ! i)"
  by (simp add: cube_def list_all_length)

lemma cube_length: "cube n rows columns A \<Longrightarrow> length A = n"
  by (simp add: cube_def)

lemma py_index_int: "0 \<le> i \<Longrightarrow> i < int (length xs) \<Longrightarrow> py_index xs i = Inr (xs ! nat i)"
  by (simp add: py_index_def)

lemma py_index2_matrix:
  "matrix rows columns M \<Longrightarrow> 0 \<le> i \<Longrightarrow> i < int rows \<Longrightarrow> 0 \<le> j \<Longrightarrow> j < int columns \<Longrightarrow>
   py_index2 M i j = Inr (M ! nat i ! nat j)"
  by (simp add: py_index2_def py_index_int matrix_length matrix_nth)

lemma py_index3_cube:
  "cube n rows columns A \<Longrightarrow> 0 \<le> i \<Longrightarrow> i < int n \<Longrightarrow> 0 \<le> j \<Longrightarrow> j < int rows \<Longrightarrow>
   0 \<le> k \<Longrightarrow> k < int columns \<Longrightarrow> py_index3 A i j k = Inr (A ! nat i ! nat j ! nat k)"
  by (simp add: py_index3_def py_index_int cube_length py_index2_matrix [OF cube_nth])

lemma map_product_concat:
  "map f (List.product xs ys) = concat (map (\<lambda>x. map (\<lambda>y. f (x, y)) ys) xs)"
  by (induction xs) (simp_all add: comp_def)

lemma map_shift_upt: "map (\<lambda>j. g (lo + j)) [0..<n] = map g [lo..<lo + n]"
  by (induction n) simp_all

lemma window_collect:
  assumes "cube (Suc columns) rows columns A" and "r < rows" and "lo + n \<le> columns"
  shows "collect (\<lambda>(i, j). py_index3 A (int i) (int r) (int lo + int j))
           (List.product [0..<columns + 1] [0..<n])
         = Inr (concat (map (\<lambda>i. map (\<lambda>k. A ! i ! r ! k) [lo..<lo + n]) [0..<columns + 1]))"
proof -
  have "collect (\<lambda>(i, j). py_index3 A (int i) (int r) (int lo + int j))
           (List.product [0..<columns + 1] [0..<n])
        = Inr (map (\<lambda>(i, j). A ! i ! r ! (lo + j)) (List.product [0..<columns + 1] [0..<n]))"
  proof (rule collect_pure)
    fix x assume "x \<in> set (List.product [0..<columns + 1] [0..<n])"
    then obtain i j where x: "x = (i, j)" "i < Suc columns" "j < n" by auto
    then have "py_index3 A (int i) (int r) (int lo + int j) = Inr (A ! nat (int i) ! nat (int r) ! nat (int lo + int j))"
      using assms by (intro py_index3_cube [OF assms(1)]) auto
    then show "(case x of (i, j) \<Rightarrow> py_index3 A (int i) (int r) (int lo + int j))
             = Inr (case x of (i, j) \<Rightarrow> A ! i ! r ! (lo + j))"
      using x by (simp add: nat_add_distrib)
  qed
  also have "map (\<lambda>(i, j). A ! i ! r ! (lo + j)) (List.product [0..<columns + 1] [0..<n])
      = concat (map (\<lambda>i. map (\<lambda>k. A ! i ! r ! k) [lo..<lo + n]) [0..<columns + 1])"
    by (simp add: map_product_concat map_shift_upt [of "\<lambda>k. A ! _ ! r ! k"])
  finally show ?thesis .
qed


lemma across_body_pure:
  assumes A: "cube (Suc columns) rows columns A"
    and l: "l \<le> columns" and r: "r < rows" and c: "c < columns"
    and w: "map_of wordlist l = Some ts" and fits: "l \<le> columns - c"
  shows "across_body wordlist rows columns L A IA l r c model =
           bind_err (collect (\<lambda>i. py_index2 L (int r) (int c + int i)) [0..<l]) (\<lambda>letters.
           bind_err (py_index2 IA (int r) (int c)) (\<lambda>ia.
             table (post (Add (Eq (LinSum (map Var (across_window columns A l r c))) (Const 1))
                            (Some (Pos (A ! l ! r ! c)))) model)
               (letters @ [ia]) ts (A ! l ! r ! c)))"
proof -
  have a: "py_index3 A (int l) (int r) (int c) = Inr (A ! l ! r ! c)"
    using py_index3_cube [OF A, of "int l" "int r" "int c"] l r c by simp
  have not_over: "\<not> int l > int columns - int c" using fits c by linarith
  let ?post = "\<lambda>xs. post (Add (Eq (LinSum (map Var xs)) (Const 1)) (Some (Pos (A ! l ! r ! c)))) model"
  have win: "(if l = columns then
             sum_is_one_if
               (collect (\<lambda>(i, j). py_index3 A (int i) (int r) (int c + int j))
                  (List.product [0..<columns + 1] [0..<columns - c]))
               (pos_lit (py_index3 A (int l) (int r) (int c))) model
           else if c = 0 then
             sum_is_one_if
               (collect (\<lambda>(i, j). py_index3 A (int i) (int r) (int c + int j))
                  (List.product [0..<columns + 1] [0..<l + 1]))
               (pos_lit (py_index3 A (int l) (int r) (int c))) model
           else if c + l = columns then
             sum_is_one_if
               (collect (\<lambda>(i, j). py_index3 A (int i) (int r) (int c + int j))
                  (List.product [0..<columns + 1] [0..<columns - c]))
               (pos_lit (py_index3 A (int l) (int r) (int c))) model
           else
             sum_is_one_if
               (collect (\<lambda>(i, j). py_index3 A (int i) (int r) (int c - 1 + int j))
                  (List.product [0..<columns + 1] [0..<l + 2]))
               (pos_lit (py_index3 A (int l) (int r) (int c))) model)
        = Inr (?post (across_window columns A l r c))"
  proof -
    consider (full) "l = columns" | (left) "l \<noteq> columns" "c = 0"
      | (right) "l \<noteq> columns" "c \<noteq> 0" "c + l = columns"
      | (inner) "l \<noteq> columns" "c \<noteq> 0" "c + l \<noteq> columns" by blast
    then show ?thesis
    proof cases
      case full
      have "c + (columns - c) \<le> columns" using c by simp
      from window_collect [OF A r this] full c a show ?thesis
        by (simp add: sum_is_one_if_def pos_lit_def across_window_def start_window_def)
    next
      case left
      have "c + (l + 1) \<le> columns" using left l by simp
      from window_collect [OF A r this] left a show ?thesis
        by (simp add: sum_is_one_if_def pos_lit_def across_window_def start_window_def)
    next
      case right
      have "c + (columns - c) \<le> columns" using c by simp
      from window_collect [OF A r this] right c a show ?thesis
        by (simp add: sum_is_one_if_def pos_lit_def across_window_def start_window_def)
    next
      case inner
      have le: "(c - 1) + (l + 2) \<le> columns" using inner fits c by simp
      have eq: "int c - 1 = int (c - 1)" using inner by simp
      have up: "c - 1 + (l + 2) = c + l + 1" using inner by simp
      from window_collect [OF A r le] inner a show ?thesis
        unfolding eq
        by (simp add: sum_is_one_if_def pos_lit_def across_window_def start_window_def up)
    qed
  qed
  show ?thesis
    unfolding across_body_def
    apply (simp only: w not_over option.simps if_False cong: if_weak_cong)
    apply (simp only: win)
    apply (simp add: a py_lookup_def w)
    done
qed


lemma collect_cong: "(\<And>x. x \<in> set xs \<Longrightarrow> e x = e' x) \<Longrightarrow> collect e xs = collect e' xs"
  by (induction xs) simp_all

lemma matrix_transposed: "matrix rows columns M \<Longrightarrow> matrix columns rows (transposed columns M)"
  by (simp add: matrix_def transposed_def list_all_length)

lemma transposed_nth:
  "matrix rows columns M \<Longrightarrow> r < rows \<Longrightarrow> c < columns \<Longrightarrow> transposed columns M ! c ! r = M ! r ! c"
  by (simp add: matrix_def transposed_def)

lemma cube_transposed:
  "cube n rows columns D \<Longrightarrow> cube n columns rows (map (transposed columns) D)"
  by (simp add: cube_def list_all_length matrix_transposed)

lemma py_index2_transposed:
  assumes "matrix rows columns M" "0 \<le> i" "i < int rows" "0 \<le> j" "j < int columns"
  shows "py_index2 (transposed columns M) j i = py_index2 M i j"
  using assms
  by (simp add: py_index2_matrix [OF assms(1)] py_index2_matrix [OF matrix_transposed [OF assms(1)]]
        transposed_nth [OF assms(1)])

lemma py_index3_transposed:
  assumes "cube n rows columns D" "0 \<le> i" "i < int n" "0 \<le> j" "j < int rows" "0 \<le> k" "k < int columns"
  shows "py_index3 (map (transposed columns) D) i k j = py_index3 D i j k"
proof -
  have "matrix rows columns (D ! nat i)" using assms by (intro cube_nth [OF assms(1)]) simp
  from transposed_nth [OF this, of "nat j" "nat k"] assms show ?thesis
    by (simp add: py_index3_cube [OF assms(1)] py_index3_cube [OF cube_transposed [OF assms(1)]]
        cube_length [OF assms(1)])
qed

lemma window_collect_transposed:
  assumes D: "cube (Suc rows) rows columns D" and c: "c < columns"
    and fits: "\<And>j. j < n \<Longrightarrow> 0 \<le> lo + int j \<and> lo + int j < int rows"
  shows "collect (\<lambda>(i, j). py_index3 D (int i) (lo + int j) (int c)) (List.product [0..<rows + 1] [0..<n])
       = collect (\<lambda>(i, j). py_index3 (map (transposed columns) D) (int i) (int c) (lo + int j))
           (List.product [0..<rows + 1] [0..<n])"
proof (rule collect_cong)
  fix x assume "x \<in> set (List.product [0..<rows + 1] [0..<n])"
  then obtain i j where x: "x = (i, j)" "i < Suc rows" "j < n" by auto
  from fits [OF x(3)] x c
  have "py_index3 (map (transposed columns) D) (int i) (int c) (lo + int j)
        = py_index3 D (int i) (lo + int j) (int c)"
    by (intro py_index3_transposed [OF D]) auto
  then show "(case x of (i, j) \<Rightarrow> py_index3 D (int i) (lo + int j) (int c))
      = (case x of (i, j) \<Rightarrow> py_index3 (map (transposed columns) D) (int i) (int c) (lo + int j))"
    using x by simp
qed

text \<open>
  C9. For every \<open>(l, r, c)\<close> of the down loop, the body of the down loop posts what the
  body of the across loop posts at \<open>(l, c, r)\<close> when rows and columns are exchanged and
  the lists \<open>L\<close>, \<open>D\<close> and \<open>ID\<close> are read transposed in place of \<open>L\<close>, \<open>A\<close> and \<open>IA\<close>.
\<close>

theorem down_body_is_transposed_across_body:
  assumes L: "matrix rows columns L" and D: "cube (Suc rows) rows columns D"
    and ID: "matrix rows columns ID" and l: "l \<le> rows" and r: "r < rows" and c: "c < columns"
  shows "down_body wordlist rows columns L D ID l r c model =
         across_body wordlist columns rows (transposed columns L) (map (transposed columns) D)
           (transposed columns ID) l c r model"
proof -
  have d: "py_index3 (map (transposed columns) D) (int l) (int c) (int r) = py_index3 D (int l) (int r) (int c)"
    using l r c by (intro py_index3_transposed [OF D]) auto
  have idv: "py_index2 (transposed columns ID) (int c) (int r) = py_index2 ID (int r) (int c)"
    using r c by (intro py_index2_transposed [OF ID]) auto
  show ?thesis
  proof (cases "map_of wordlist l = None \<or> int l > int rows - int r")
    case True
    then show ?thesis by (auto simp: down_body_def across_body_def d)
  next
    case False
    then have fits: "l \<le> rows - r" and w: "map_of wordlist l \<noteq> None" by auto
    have letters: "collect (\<lambda>i. py_index2 L (int r + int i) (int c)) [0..<l]
                 = collect (\<lambda>i. py_index2 (transposed columns L) (int c) (int r + int i)) [0..<l]"
    proof (rule collect_cong)
      fix i assume "i \<in> set [0..<l]"
      then show "py_index2 L (int r + int i) (int c) = py_index2 (transposed columns L) (int c) (int r + int i)"
        using fits r c by (intro py_index2_transposed [OF L, symmetric]) auto
    qed
    have w1: "l = rows \<Longrightarrow>
        collect (\<lambda>(i, j). py_index3 D (int i) (int r + int j) (int c)) (List.product [0..<rows + 1] [0..<rows - r])
      = collect (\<lambda>(i, j). py_index3 (map (transposed columns) D) (int i) (int c) (int r + int j))
          (List.product [0..<rows + 1] [0..<rows - r])"
      by (intro window_collect_transposed [OF D c]) auto
    have w2: "l \<noteq> rows \<Longrightarrow> r = 0 \<Longrightarrow>
        collect (\<lambda>(i, j). py_index3 D (int i) (int r + int j) (int c)) (List.product [0..<rows + 1] [0..<l + 1])
      = collect (\<lambda>(i, j). py_index3 (map (transposed columns) D) (int i) (int c) (int r + int j))
          (List.product [0..<rows + 1] [0..<l + 1])"
      using l by (intro window_collect_transposed [OF D c]) auto
    have w3: "l \<noteq> rows \<Longrightarrow> r \<noteq> 0 \<Longrightarrow> r + l \<noteq> rows \<Longrightarrow>
        collect (\<lambda>(i, j). py_index3 D (int i) (int r - 1 + int j) (int c)) (List.product [0..<rows + 1] [0..<l + 2])
      = collect (\<lambda>(i, j). py_index3 (map (transposed columns) D) (int i) (int c) (int r - 1 + int j))
          (List.product [0..<rows + 1] [0..<l + 2])"
      using fits r by (intro window_collect_transposed [OF D c]) auto
    let ?g = "pos_lit (py_index3 D (int l) (int r) (int c))"
    let ?T = "map (transposed columns) D"
    have win: "(if l = rows then
             sum_is_one_if
               (collect (\<lambda>(i, j). py_index3 ?T (int i) (int c) (int r + int j))
                  (List.product [0..<rows + 1] [0..<rows - r])) ?g model
           else if r = 0 then
             sum_is_one_if
               (collect (\<lambda>(i, j). py_index3 ?T (int i) (int c) (int r + int j))
                  (List.product [0..<rows + 1] [0..<l + 1])) ?g model
           else if r + l = rows then
             sum_is_one_if
               (collect (\<lambda>(i, j). py_index3 ?T (int i) (int c) (int r + int j))
                  (List.product [0..<rows + 1] [0..<rows - r])) ?g model
           else
             sum_is_one_if
               (collect (\<lambda>(i, j). py_index3 ?T (int i) (int c) (int r - 1 + int j))
                  (List.product [0..<rows + 1] [0..<l + 2])) ?g model)
        = (if l = rows then
             sum_is_one_if
               (collect (\<lambda>(i, j). py_index3 D (int i) (int r + int j) (int c))
                  (List.product [0..<rows + 1] [0..<rows - r])) ?g model
           else if r = 0 then
             sum_is_one_if
               (collect (\<lambda>(i, j). py_index3 D (int i) (int r + int j) (int c))
                  (List.product [0..<rows + 1] [0..<l + 1])) ?g model
           else if r + l = rows then
             sum_is_one_if
               (collect (\<lambda>(i, j). py_index3 D (int i) (int r + int j) (int c))
                  (List.product [0..<rows + 1] [0..<rows - r])) ?g model
           else
             sum_is_one_if
               (collect (\<lambda>(i, j). py_index3 D (int i) (int r - 1 + int j) (int c))
                  (List.product [0..<rows + 1] [0..<l + 2])) ?g model)"
    proof -
      consider (full) "l = rows" | (top) "l \<noteq> rows" "r = 0"
        | (bottom) "l \<noteq> rows" "r \<noteq> 0" "r + l = rows"
        | (inner) "l \<noteq> rows" "r \<noteq> 0" "r + l \<noteq> rows" by blast
      then show ?thesis
      proof cases
        case full
        show ?thesis by (simp only: eqTrueI [OF full] if_True w1 [OF full])
      next
        case top
        show ?thesis by (simp only: top(1) eqTrueI [OF top(2)] if_True if_False w2 [OF top])
      next
        case bottom
        have "collect (\<lambda>(i, j). py_index3 D (int i) (int r + int j) (int c)) (List.product [0..<rows + 1] [0..<rows - r])
          = collect (\<lambda>(i, j). py_index3 ?T (int i) (int c) (int r + int j)) (List.product [0..<rows + 1] [0..<rows - r])"
          by (intro window_collect_transposed [OF D c]) auto
        then show ?thesis
          by (simp only: bottom(1,2) eqTrueI [OF bottom(3)] if_True if_False)
      next
        case inner
        show ?thesis by (simp only: inner if_False w3 [OF inner])
      qed
    qed
    show ?thesis
      unfolding down_body_def across_body_def
      by (simp only: d idv letters [symmetric] win)
  qed
qed


theorem down_body_is_transposed_across_body_witness:
  "matrix 2 2 [[0, 1], [2, 3::nat]] \<and> cube 3 2 2 [[[4, 5], [6, 7]], [[8, 9], [10, 11]], [[12, 13], [14, 15::nat]]]
   \<and> matrix 2 2 [[16, 17], [18, 19::nat]]
   \<and> down_body [(2, [[1, 1, 0]])] 2 2 [[0, 1], [2, 3]]
        [[[4, 5], [6, 7]], [[8, 9], [10, 11]], [[12, 13], [14, 15]]] [[16, 17], [18, 19]] 2 0 1
        \<lparr>domains = replicate 20 (0, 1), constraints = []\<rparr>
     = across_body [(2, [[1, 1, 0]])] 2 2 [[0, 2], [1, 3]]
        [[[4, 6], [5, 7]], [[8, 10], [9, 11]], [[12, 14], [13, 15]]] [[16, 18], [17, 19]] 2 1 0
        \<lparr>domains = replicate 20 (0, 1), constraints = []\<rparr>"
proof -
  have L: "matrix 2 2 [[0, 1], [2, 3::nat]]" by (simp add: matrix_def)
  have D: "cube (Suc 2) 2 2 [[[4, 5], [6, 7]], [[8, 9], [10, 11]], [[12, 13], [14, 15::nat]]]"
    by (simp add: cube_def matrix_def)
  have ID: "matrix 2 2 [[16, 17], [18, 19::nat]]" by (simp add: matrix_def)
  have t: "transposed 2 [[a, b], [c, d]] = [[a, c], [b, d]]" for a b c d :: nat
    by (simp add: transposed_def numeral_2_eq_2)
  from down_body_is_transposed_across_body [OF L D ID, of 2 0 1 "[(2, [[1, 1, 0]])]"
      "\<lparr>domains = replicate 20 (0, 1), constraints = []\<rparr>"] L D ID
  show ?thesis by (simp add: t)
qed

text \<open>
  C3. For a placement \<open>(l, r, c)\<close> whose length has words and fits the row, the body of
  the across loop posts one constraint "sum of a window of start indicators = 1",
  enforced by \<open>A[l][r][c]\<close>, and then attaches the table to the model so extended. The
  window is the one that \<open>across_window\<close> names after the four cases of the specification.
\<close>

theorem across_body_posts_one_window:
  assumes "cube (Suc columns) rows columns A"
    and "l \<le> columns" and "r < rows" and "c < columns"
    and "map_of wordlist l = Some ts" and "l \<le> columns - c"
  shows "across_body wordlist rows columns L A IA l r c model =
           bind_err (collect (\<lambda>i. py_index2 L (int r) (int c + int i)) [0..<l]) (\<lambda>letters.
           bind_err (py_index2 IA (int r) (int c)) (\<lambda>ia.
             table (post (Add (Eq (LinSum (map Var (across_window columns A l r c))) (Const 1))
                            (Some (Pos (A ! l ! r ! c)))) model)
               (letters @ [ia]) ts (A ! l ! r ! c)))"
  using assms by (rule across_body_pure)

theorem across_body_posts_one_window_witness:
  "cube (Suc 3) 1 3 [[[0, 1, 2]], [[3, 4, 5]], [[6, 7, 8]], [[9, 10, 11::nat]]]
   \<and> across_window 3 [[[0, 1, 2]], [[3, 4, 5]], [[6, 7, 8]], [[9, 10, 11]]] 1 0 1
       = [0, 1, 2, 3, 4, 5, 6, 7, 8, 9, 10, 11]
   \<and> across_body [(1, [[1, 0]])] 1 3 [[12, 13, 14]] [[[0, 1, 2]], [[3, 4, 5]], [[6, 7, 8]], [[9, 10, 11]]] [[15, 16, 17]] 1 0 1 CpModel =
           bind_err (collect (\<lambda>i. py_index2 [[12, 13, 14]] (int 0) (int 1 + int i)) [0..<1]) (\<lambda>letters.
           bind_err (py_index2 [[15, 16, 17]] (int 0) (int 1)) (\<lambda>ia.
             table (post (Add (Eq (LinSum (map Var [0, 1, 2, 3, 4, 5, 6, 7, 8, 9, 10, 11])) (Const 1))
                            (Some (Pos 4))) CpModel)
               (letters @ [ia]) [[1, 0]] 4))"
proof -
  have A: "cube (Suc 3) 1 3 [[[0, 1, 2]], [[3, 4, 5]], [[6, 7, 8]], [[9, 10, 11::nat]]]"
    by (simp add: cube_def matrix_def)
  have w: "across_window 3 [[[0, 1, 2]], [[3, 4, 5]], [[6, 7, 8]], [[9, 10, 11]]] 1 0 1
       = [0, 1, 2, 3, 4, 5, 6, 7, 8, 9, 10, 11]"
    by (simp add: across_window_def start_window_def eval_nat_numeral)
  from across_body_posts_one_window [OF A, of 1 0 1 "[(1, [[1, 0]])]" "[[1, 0]]" "[[12, 13, 14]]" "[[15, 16, 17]]" CpModel] A w
  show ?thesis by simp
qed

section \<open>Placements that are forced false\<close>

lemma load_words_loop_nonempty:
  assumes "\<And>l ts. map_of wordlist l = Some ts \<Longrightarrow> ts \<noteq> []"
    and "map_of (load_words_loop words i wordlist) l = Some ts"
  shows "ts \<noteq> []"
  using assms
proof (induction words arbitrary: i wordlist)
  case Nil
  then show ?case by simp
next
  case (Cons word words)
  show ?case
  proof (rule Cons.IH [OF _ Cons.prems(2) [simplified]])
    fix k us
    assume "map_of (case map_of wordlist (length word) of
          None \<Rightarrow> AList.update (length word) [word_to_numbers word @ [i]] wordlist
        | Some ts \<Rightarrow> AList.update (length word) (ts @ [word_to_numbers word @ [i]]) wordlist) k = Some us"
    then show "us \<noteq> []"
      using Cons.prems(1) [of k us]
      by (auto simp: update_conv' split: option.splits if_splits)
  qed
qed

lemma load_words_nonempty: "map_of (load_words words) l = Some ts \<Longrightarrow> ts \<noteq> []"
  unfolding load_words_def by (rule load_words_loop_nonempty [of "[]"]) simp_all

lemma table_empty_raises: "table model variables [] option = Inl ValueError"
  by (simp add: table_def py_max_def)

text \<open>
  C4. When the word list has no word of length \<open>l\<close>, or a word of length \<open>l\<close> starting at
  column \<open>c\<close> would overrun the row, the body of the across loop posts \<open>A[l][r][c] == 0\<close>
  and nothing else (in particular it creates no variable and attaches no table); the
  body of the down loop does the same for \<open>D[l][r][c]\<close> with rows in place of columns.
  Every list of tuples of a word list that \<open>load_words\<close> built is non-empty, so the table,
  which raises on an empty list of tuples, is never called with one.
\<close>

theorem placement_forced_false:
  assumes "cube (Suc columns) rows columns A" and "cube (Suc rows) rows columns D"
    and "r < rows" and "c < columns"
  shows "(l \<le> columns \<and> (map_of wordlist l = None \<or> l > columns - c) \<longrightarrow>
            across_body wordlist rows columns L A IA l r c model =
              Inr (post (Add (Eq (Var (A ! l ! r ! c)) (Const 0)) None) model))
       \<and> (l \<le> rows \<and> (map_of wordlist l = None \<or> l > rows - r) \<longrightarrow>
            down_body wordlist rows columns L D ID l r c model =
              Inr (post (Add (Eq (Var (D ! l ! r ! c)) (Const 0)) None) model))
       \<and> (\<forall>ts. map_of (load_words words) l = Some ts \<longrightarrow> ts \<noteq> [])
       \<and> table model variables [] option = Inl ValueError"
proof (intro conjI impI allI)
  assume a: "l \<le> columns \<and> (map_of wordlist l = None \<or> l > columns - c)"
  have "py_index3 A (int l) (int r) (int c) = Inr (A ! l ! r ! c)"
    using py_index3_cube [OF assms(1), of "int l" "int r" "int c"] a assms(3,4) by simp
  moreover have "map_of wordlist l \<noteq> None \<Longrightarrow> int l > int columns - int c"
    using a assms(4) by auto
  ultimately show "across_body wordlist rows columns L A IA l r c model =
              Inr (post (Add (Eq (Var (A ! l ! r ! c)) (Const 0)) None) model)"
    by (auto simp: across_body_def force_false_def)
next
  assume a: "l \<le> rows \<and> (map_of wordlist l = None \<or> l > rows - r)"
  have "py_index3 D (int l) (int r) (int c) = Inr (D ! l ! r ! c)"
    using py_index3_cube [OF assms(2), of "int l" "int r" "int c"] a assms(3,4) by simp
  moreover have "map_of wordlist l \<noteq> None \<Longrightarrow> int l > int rows - int r"
    using a assms(3) by auto
  ultimately show "down_body wordlist rows columns L D ID l r c model =
              Inr (post (Add (Eq (Var (D ! l ! r ! c)) (Const 0)) None) model)"
    by (auto simp: down_body_def force_false_def)
next
  fix ts assume "map_of (load_words words) l = Some ts"
  then show "ts \<noteq> []" by (rule load_words_nonempty)
next
  show "table model variables [] option = Inl ValueError" by (rule table_empty_raises)
qed

theorem placement_forced_false_witness:
  "cube (Suc 2) 2 2 [[[4, 5], [6, 7]], [[8, 9], [10, 11]], [[12, 13], [14, 15::nat]]]
   \<and> across_body (load_words [''AB'', ''CD'']) 2 2 [[0, 1], [2, 3]]
        [[[4, 5], [6, 7]], [[8, 9], [10, 11]], [[12, 13], [14, 15]]] [[16, 17], [18, 19]] 2 1 1 CpModel
      = Inr (post (Add (Eq (Var 15) (Const 0)) None) CpModel)
   \<and> down_body (load_words [''AB'', ''CD'']) 2 2 [[0, 1], [2, 3]]
        [[[4, 5], [6, 7]], [[8, 9], [10, 11]], [[12, 13], [14, 15]]] [[16, 17], [18, 19]] 1 1 1 CpModel
      = Inr (post (Add (Eq (Var 11) (Const 0)) None) CpModel)
   \<and> map_of (load_words [''AB'', ''CD'']) 2 = Some [[1, 2, 0], [3, 4, 1]]"
proof -
  have A: "cube (Suc 2) 2 2 [[[4, 5], [6, 7]], [[8, 9], [10, 11]], [[12, 13], [14, 15::nat]]]"
    by (simp add: cube_def matrix_def)
  have w1: "map_of (load_words [''AB'', ''CD'']) 1 = None"
    and w2: "map_of (load_words [''AB'', ''CD'']) 2 = Some [[1, 2, 0], [3, 4, 1]]"
    by (simp_all add: load_words_def word_to_numbers_def upper_def)
  from placement_forced_false [OF A A, of 1 1 2 "load_words [''AB'', ''CD'']" "[[0, 1], [2, 3]]" "[[16, 17], [18, 19]]" CpModel]
  have a: "across_body (load_words [''AB'', ''CD'']) 2 2 [[0, 1], [2, 3]]
        [[[4, 5], [6, 7]], [[8, 9], [10, 11]], [[12, 13], [14, 15]]] [[16, 17], [18, 19]] 2 1 1 CpModel
      = Inr (post (Add (Eq (Var 15) (Const 0)) None) CpModel)"
    by simp
  from placement_forced_false [OF A A, of 1 1 1 "load_words [''AB'', ''CD'']" "[[0, 1], [2, 3]]" "[[16, 17], [18, 19]]" CpModel "[[16, 17], [18, 19]]"] w1
  have d: "down_body (load_words [''AB'', ''CD'']) 2 2 [[0, 1], [2, 3]]
        [[[4, 5], [6, 7]], [[8, 9], [10, 11]], [[12, 13], [14, 15]]] [[16, 17], [18, 19]] 1 1 1 CpModel
      = Inr (post (Add (Eq (Var 11) (Const 0)) None) CpModel)"
    by simp
  from A a d w2 show ?thesis by simp
qed

section \<open>Creating variables and posting constraints, in closed form\<close>

lemma posts_Nil [simp]: "posts [] m = m"
  by (simp add: posts_def)

lemma posts_posts [simp]: "posts cs (posts bs m) = posts (bs @ cs) m"
  by (simp add: posts_def)

lemma post_posts: "post c m = posts [c] m"
  by (simp add: post_def posts_def)

lemma domains_posts [simp]: "domains (posts cs m) = domains m"
  by (simp add: posts_def)

lemma constraints_posts [simp]: "constraints (posts cs m) = constraints m @ cs"
  by (simp add: posts_def)

lemma more_bools_0 [simp]: "more_bools 0 m = m"
  by (simp add: more_bools_def)

lemma more_bools_more_bools [simp]: "more_bools k (more_bools j m) = more_bools (j + k) m"
  by (simp add: more_bools_def replicate_add)

lemma domains_more_bools [simp]: "domains (more_bools k m) = domains m @ replicate k (0, 1)"
  by (simp add: more_bools_def)

lemma constraints_more_bools [simp]: "constraints (more_bools k m) = constraints m"
  by (simp add: more_bools_def)

lemma NewBoolVar_more_bools: "NewBoolVar m = (length (domains m), more_bools 1 m)"
  by (simp add: NewBoolVar_def NewIntVar_def more_bools_def)

lemma new_bool_vars:
  "new_vars NewBoolVar k m = ([length (domains m)..<length (domains m) + k], more_bools k m)"
proof (induction k arbitrary: m)
  case 0
  then show ?case by simp
next
  case (Suc k)
  have "[length (domains m)..<length (domains m) + Suc k]
        = length (domains m) # [Suc (length (domains m))..<Suc (length (domains m)) + k]"
    by (simp add: upt_conv_Cons)
  moreover have "new_vars NewBoolVar (Suc k) m
      = (case new_vars NewBoolVar k (more_bools 1 m) of (vs, m2) \<Rightarrow> (length (domains m) # vs, m2))"
    unfolding new_vars.simps NewBoolVar_more_bools [of m] by simp
  ultimately show ?case
    by (simp add: Suc del: upt_Suc new_vars.simps)
qed

lemma new_bool_vars2:
  "new_vars2 NewBoolVar k n m =
     (map (\<lambda>i. [length (domains m) + i * n..<length (domains m) + i * n + n]) [0..<k],
      more_bools (k * n) m)"
proof (induction k arbitrary: m)
  case 0
  then show ?case by simp
next
  case (Suc k)
  have a: "map (\<lambda>i. [length (domains m) + n + i * n..<length (domains m) + n + i * n + n]) [0..<k]
      = map (\<lambda>i. [length (domains m) + Suc i * n..<length (domains m) + Suc i * n + n]) [0..<k]"
    by (simp add: add.assoc)
  have b: "[0..<Suc k] = 0 # map Suc [0..<k]"
    by (simp add: upt_conv_Cons map_Suc_upt del: upt_Suc)
  show ?case
    unfolding new_vars2.simps new_bool_vars Suc b
    by (simp add: a comp_def del: upt_Suc)
qed

lemma for_each_posts:
  assumes "\<And>x m. x \<in> set xs \<Longrightarrow> body x m = Inr (posts (cs x) m)"
  shows "for_each body xs m = Inr (posts (concat (map cs xs)) m)"
  using assms by (induction xs arbitrary: m) simp_all


lemma py_max_nonempty: "xs \<noteq> [] \<Longrightarrow> py_max xs = Inr (list_max xs)"
  by (cases xs) (simp_all add: py_max_def list_max_def)

lemma list_max_Max: "xs \<noteq> [] \<Longrightarrow> list_max xs = Max (set xs)"
  by (cases xs) (simp_all add: list_max_def Max.set_eq_fold [symmetric])

lemma list_max_ge: "x \<in> set xs \<Longrightarrow> x \<le> list_max xs"
  by (cases "xs = []") (simp_all add: list_max_Max)

lemma list_max_in: "xs \<noteq> [] \<Longrightarrow> list_max xs \<in> set xs"
  by (simp add: list_max_Max)

lemma max_value_ge:
  assumes "t \<in> set tuples" and "x \<in> set t"
  shows "x \<le> list_max (map list_max tuples)"
proof -
  have "x \<le> list_max t" using assms(2) by (rule list_max_ge)
  also have "list_max t \<le> list_max (map list_max tuples)"
    using assms(1) by (intro list_max_ge) simp
  finally show ?thesis .
qed

lemma add_possible_row:
  assumes "s + length t \<le> length pv"
  shows "for_each add_possible (enumerate s t) pv =
           Inr (map (\<lambda>i. if s \<le> i \<and> i < s + length t then insert (t ! (i - s)) (pv ! i) else pv ! i)
                  [0..<length pv])"
  using assms
proof (induction t arbitrary: s pv)
  case Nil
  have e: "\<And>i. (s \<le> i \<and> i < s) = False" by auto
  show ?case by (simp add: e map_nth)
next
  case (Cons x t)
  have len: "Suc s + length t \<le> length (pv[s := insert x (pv ! s)])" using Cons.prems by simp
  have "for_each add_possible (enumerate s (x # t)) pv
      = for_each add_possible (enumerate (Suc s) t) (pv[s := insert x (pv ! s)])"
    using Cons.prems by (simp add: add_possible_def)
  also have "\<dots> = Inr (map (\<lambda>i. if Suc s \<le> i \<and> i < Suc s + length t
                     then insert (t ! (i - Suc s)) (pv[s := insert x (pv ! s)] ! i)
                     else pv[s := insert x (pv ! s)] ! i) [0..<length (pv[s := insert x (pv ! s)])])"
    by (rule Cons.IH [OF len])
  also have "\<dots> = Inr (map (\<lambda>i. if s \<le> i \<and> i < s + length (x # t)
                     then insert ((x # t) ! (i - s)) (pv ! i) else pv ! i) [0..<length pv])"
    using Cons.prems by (auto simp: nth_list_update nth_Cons' )
  finally show ?case .
qed

lemma possible_values_rows:
  assumes "\<And>t. t \<in> set tuples \<Longrightarrow> length t \<le> length pv"
  shows "for_each (\<lambda>t. for_each add_possible (enumerate 0 t)) tuples pv =
           Inr (map (\<lambda>i. pv ! i \<union> {t ! i |t. t \<in> set tuples \<and> i < length t}) [0..<length pv])"
  using assms
proof (induction tuples arbitrary: pv)
  case Nil
  then show ?case by (simp add: map_nth)
next
  case (Cons t tuples)
  let ?pv = "map (\<lambda>i. if 0 \<le> i \<and> i < 0 + length t then insert (t ! (i - 0)) (pv ! i) else pv ! i) [0..<length pv]"
  have row: "for_each add_possible (enumerate 0 t) pv = Inr ?pv"
    using Cons.prems [of t] by (intro add_possible_row) simp
  have "for_each (\<lambda>t. for_each add_possible (enumerate 0 t)) tuples ?pv =
           Inr (map (\<lambda>i. ?pv ! i \<union> {t ! i |t. t \<in> set tuples \<and> i < length t}) [0..<length ?pv])"
    using Cons.prems by (intro Cons.IH) simp
  then show ?case
    by (auto simp: row)
qed

lemma possible_values_closed:
  assumes "\<And>t. t \<in> set tuples \<Longrightarrow> length t = k"
  shows "possible_values_of k tuples = Inr (map (\<lambda>i. (\<lambda>t. t ! i) ` set tuples) [0..<k])"
proof -
  have "possible_values_of k tuples =
          Inr (map (\<lambda>i. replicate k {} ! i \<union> {t ! i |t. t \<in> set tuples \<and> i < length t})
                 [0..<length (replicate k ({}::int set))])"
    unfolding possible_values_of_def using assms by (intro possible_values_rows) simp
  also have "\<dots> = Inr (map (\<lambda>i. (\<lambda>t. t ! i) ` set tuples) [0..<k])"
    using assms by (auto simp: image_def)
  finally show ?thesis .
qed


lemma upto_as_upt: "map (\<lambda>j. a + nat j) [0..int k - 1] = [a..<a + k]"
proof (induction k)
  case 0
  then show ?case by simp
next
  case (Suc k)
  have "[0..int (Suc k) - 1] = [0..int k - 1] @ [int k]"
    using upto_rec2 [of 0 "int k"] by simp
  then show ?case using Suc by simp
qed

lemma is_assigned_row:
  "0 \<le> mx + 1 \<Longrightarrow> map (is_assigned_var n T (nat (mx + 1)) i) [0..mx] =
     [n + T + i * nat (mx + 1)..<n + T + i * nat (mx + 1) + nat (mx + 1)]"
  using upto_as_upt [of "n + T + i * nat (mx + 1)" "nat (mx + 1)"]
  by (simp add: is_assigned_var_def [abs_def])

lemma is_assigned_index:
  assumes "i < k" and "0 \<le> j" and "j \<le> mx"
  shows "py_index2 (map (\<lambda>i. [a + i * nat (mx + 1)..<a + i * nat (mx + 1) + nat (mx + 1)]) [0..<k]) (int i) j
           = Inr (a + i * nat (mx + 1) + nat j)"
  using assms by (simp add: py_index2_def py_index_int)

lemma table_closed:
  assumes ne: "tuples \<noteq> []" and vs: "variables \<noteq> []"
    and len0: "\<forall>t\<in>set tuples. length t = length variables"
    and nonneg0: "\<forall>t\<in>set tuples. \<forall>x\<in>set t. 0 \<le> x"
  shows "table m variables tuples option =
           Inr (posts (table_constraints (length (domains m)) variables tuples option)
                  (more_bools (length tuples + length variables * nat (list_max (map list_max tuples) + 1)) m))"
proof -
  have len: "\<And>t. t \<in> set tuples \<Longrightarrow> length t = length variables" using len0 by simp
  have nonneg: "\<And>t x. t \<in> set tuples \<Longrightarrow> x \<in> set t \<Longrightarrow> 0 \<le> x" using nonneg0 by simp
  define n where "n = length (domains m)"
  define T where "T = length tuples"
  define k where "k = length variables"
  define mx where "mx = list_max (map list_max tuples)"
  define M where "M = nat (mx + 1)"
  define ia where "ia = map (\<lambda>i. [n + T + i * M..<n + T + i * M + M]) [0..<k]"
  define pv where "pv = map (\<lambda>i. (\<lambda>t. t ! i) ` set tuples) [0..<k]"
  have tne: "\<And>t. t \<in> set tuples \<Longrightarrow> t \<noteq> []" using len vs by fastforce
  have le_mx: "\<And>t x. t \<in> set tuples \<Longrightarrow> x \<in> set t \<Longrightarrow> x \<le> mx"
    unfolding mx_def by (rule max_value_ge)
  obtain t0 where t0: "t0 \<in> set tuples" using ne by (cases tuples) auto
  obtain x0 where x0: "x0 \<in> set t0" using tne [OF t0] by (cases t0) auto
  have mx0: "0 \<le> mx" using nonneg [OF t0 x0] le_mx [OF t0 x0] by simp
  have s1: "new_vars NewBoolVar (length tuples) m = ([n..<n + T], more_bools T m)"
    by (simp add: new_bool_vars n_def T_def)
  have s2: "collect py_max tuples = Inr (map list_max tuples)"
    by (intro collect_pure py_max_nonempty tne)
  have s3: "py_max (map list_max tuples) = Inr mx"
    unfolding mx_def using ne by (intro py_max_nonempty) simp
  have s4: "possible_values_of (length variables) tuples = Inr pv"
    unfolding pv_def k_def using len by (intro possible_values_closed) simp
  have s5: "new_vars2 NewBoolVar (length variables) (nat (mx + 1)) (more_bools T m)
              = (ia, more_bools (T + k * M) m)"
    by (simp add: new_bool_vars2 ia_def n_def k_def M_def add.assoc)
  have idx: "\<And>i j. i < k \<Longrightarrow> 0 \<le> j \<Longrightarrow> j \<le> mx \<Longrightarrow>
               py_index2 ia (int i) j = Inr (is_assigned_var n T M i j)"
    unfolding ia_def M_def is_assigned_var_def by (rule is_assigned_index)
  have pvi: "\<And>i. i < k \<Longrightarrow> py_index pv (int i) = Inr ((\<lambda>t. t ! i) ` set tuples)"
    by (simp add: pv_def)
  have s6: "for_each (\<lambda>i. for_each (forbid_impossible ia pv option i) [0..mx]) [0..<length variables] m2 =
              Inr (posts (concat (map (\<lambda>i. concat (map (\<lambda>j.
                     if j \<in> (\<lambda>t. t ! i) ` set tuples then []
                     else [Add (Eq (Var (is_assigned_var n T M i j)) (Const 0)) (Some (Pos option))])
                   [0..mx])) [0..<length variables])) m2)" for m2
  proof (rule for_each_posts)
    fix i m3 assume "i \<in> set [0..<length variables]"
    then have i: "i < k" by (simp add: k_def)
    show "for_each (forbid_impossible ia pv option i) [0..mx] m3 =
            Inr (posts (concat (map (\<lambda>j.
                     if j \<in> (\<lambda>t. t ! i) ` set tuples then []
                     else [Add (Eq (Var (is_assigned_var n T M i j)) (Const 0)) (Some (Pos option))])
                   [0..mx])) m3)"
    proof (rule for_each_posts)
      fix j m4 assume "j \<in> set [0..mx]"
      then have j: "0 \<le> j" "j \<le> mx" by simp_all
      show "forbid_impossible ia pv option i j m4 =
              Inr (posts (if j \<in> (\<lambda>t. t ! i) ` set tuples then []
                     else [Add (Eq (Var (is_assigned_var n T M i j)) (Const 0)) (Some (Pos option))]) m4)"
        by (simp add: forbid_impossible_def pvi [OF i] idx [OF i j] post_posts)
    qed
  qed
  have s7: "for_each (one_value option) ia m2 =
              Inr (posts (map (\<lambda>i. Add (Eq (LinSum (map Var (map (is_assigned_var n T M i) [0..mx]))) (Const 1))
                     (Some (Pos option))) [0..<length variables]) m2)" for m2
  proof -
    have "for_each (one_value option) ia m2 =
            Inr (posts (concat (map (\<lambda>row. [Add (Eq (LinSum (map Var row)) (Const 1)) (Some (Pos option))]) ia)) m2)"
      by (rule for_each_posts) (simp add: one_value_def post_posts)
    also have "concat (map (\<lambda>row. [Add (Eq (LinSum (map Var row)) (Const 1)) (Some (Pos option))]) ia)
        = map (\<lambda>i. Add (Eq (LinSum (map Var (map (is_assigned_var n T M i) [0..mx]))) (Const 1))
                     (Some (Pos option))) [0..<length variables]"
      using mx0 by (simp add: ia_def k_def M_def is_assigned_row comp_def concat_map_singleton)
    finally show ?thesis .
  qed
  have s8: "for_each (\<lambda>i. for_each (link_assigned ia variables i) [0..mx]) [0..<length variables] m2 =
              Inr (posts (concat (map (\<lambda>i. map (\<lambda>j.
                     Add (Eq (Var (variables ! i)) (Const j)) (Some (Pos (is_assigned_var n T M i j))))
                   [0..mx]) [0..<length variables])) m2)" for m2
  proof (rule for_each_posts)
    fix i m3 assume "i \<in> set [0..<length variables]"
    then have i: "i < k" by (simp add: k_def)
    have "for_each (link_assigned ia variables i) [0..mx] m3 =
            Inr (posts (concat (map (\<lambda>j.
                     [Add (Eq (Var (variables ! i)) (Const j)) (Some (Pos (is_assigned_var n T M i j)))])
                   [0..mx])) m3)"
    proof (rule for_each_posts)
      fix j m4 assume "j \<in> set [0..mx]"
      then have j: "0 \<le> j" "j \<le> mx" by simp_all
      show "link_assigned ia variables i j m4 =
              Inr (posts [Add (Eq (Var (variables ! i)) (Const j)) (Some (Pos (is_assigned_var n T M i j)))] m4)"
        using i by (simp add: link_assigned_def idx [OF i j] post_posts k_def)
    qed
    then show "for_each (link_assigned ia variables i) [0..mx] m3 =
            Inr (posts (map (\<lambda>j.
                     Add (Eq (Var (variables ! i)) (Const j)) (Some (Pos (is_assigned_var n T M i j))))
                   [0..mx]) m3)"
      by (simp add: concat_map_singleton)
  qed
  have s9: "for_each (select_tuple ia [n..<n + T]) (enumerate 0 tuples) m2 =
              Inr (posts (map (\<lambda>it. AddBoolAnd (map (\<lambda>j. Pos (is_assigned_var n T M j (snd it ! j))) [0..<length (snd it)])
                  (Some (Pos (n + fst it)))) (enumerate 0 tuples)) m2)" for m2
  proof -
    have "for_each (select_tuple ia [n..<n + T]) (enumerate 0 tuples) m2 =
              Inr (posts (concat (map (\<lambda>it. [AddBoolAnd (map (\<lambda>j. Pos (is_assigned_var n T M j (snd it ! j))) [0..<length (snd it)])
                  (Some (Pos (n + fst it)))]) (enumerate 0 tuples))) m2)"
    proof (rule for_each_posts)
      fix it m3 assume "it \<in> set (enumerate 0 tuples)"
      then have it: "fst it < T" "snd it \<in> set tuples"
        using nth_mem [of "fst it" tuples] by (auto simp: in_set_enumerate_eq T_def)
      have lt: "length (snd it) = k" using len [OF it(2)] by (simp add: k_def)
      have c: "collect (\<lambda>j. bind_err (py_index (snd it) (int j)) (\<lambda>tj. py_index2 ia (int j) tj)) [0..<length (snd it)]
            = Inr (map (\<lambda>j. is_assigned_var n T M j (snd it ! j)) [0..<length (snd it)])"
      proof (rule collect_pure)
        fix j assume "j \<in> set [0..<length (snd it)]"
        then have j: "j < length (snd it)" by simp
        then have m: "snd it ! j \<in> set (snd it)" by simp
        show "bind_err (py_index (snd it) (int j)) (py_index2 ia (int j)) = Inr (is_assigned_var n T M j (snd it ! j))"
          using j lt by (simp add: idx nonneg [OF it(2) m] le_mx [OF it(2) m])
      qed
      show "select_tuple ia [n..<n + T] it m3 =
              Inr (posts [AddBoolAnd (map (\<lambda>j. Pos (is_assigned_var n T M j (snd it ! j))) [0..<length (snd it)])
                  (Some (Pos (n + fst it)))] m3)"
        using it(1) by (simp add: select_tuple_def c post_posts comp_def)
    qed
    then show ?thesis by (simp add: concat_map_singleton)
  qed
  show ?thesis
    unfolding table_def s1 s2 s3 s4 prod.case bind_err_Inr s5 s6 s7 s8 s9
    by (simp add: post_posts table_constraints_def Let_def n_def T_def k_def mx_def M_def cong: if_cong)
qed


section \<open>What the table constraints mean\<close>

lemma in_domains_bools:
  "in_domains \<sigma> n (replicate K (0, 1)) \<longleftrightarrow> (\<forall>v. n \<le> v \<and> v < n + K \<longrightarrow> \<sigma> v = 0 \<or> \<sigma> v = 1)"
proof (induction K arbitrary: n)
  case 0
  then show ?case by simp
next
  case (Suc K)
  have "(\<forall>v. n \<le> v \<and> v < n + Suc K \<longrightarrow> \<sigma> v = 0 \<or> \<sigma> v = 1)
      \<longleftrightarrow> (\<sigma> n = 0 \<or> \<sigma> n = 1) \<and> (\<forall>v. Suc n \<le> v \<and> v < Suc n + K \<longrightarrow> \<sigma> v = 0 \<or> \<sigma> v = 1)"
    (is "?A \<longleftrightarrow> ?B \<and> ?C")
  proof
    assume a: ?A
    have ?B using a [rule_format, of n] by simp
    moreover have ?C using a by auto
    ultimately show "?B \<and> ?C" ..
  next
    assume bc: "?B \<and> ?C"
    show ?A
    proof (intro allI impI)
      fix v assume v: "n \<le> v \<and> v < n + Suc K"
      show "\<sigma> v = 0 \<or> \<sigma> v = 1"
      proof (cases "v = n")
        case True
        then show ?thesis using bc by simp
      next
        case False
        then have "Suc n \<le> v \<and> v < Suc n + K" using v by simp
        then show ?thesis using bc by blast
      qed
    qed
  qed
  moreover have "in_domains \<sigma> n (replicate (Suc K) (0, 1))
      \<longleftrightarrow> (\<sigma> n = 0 \<or> \<sigma> n = 1) \<and> in_domains \<sigma> (Suc n) (replicate K (0, 1))"
    by auto
  ultimately show ?case using Suc.IH [of "Suc n"] by (simp only:)
qed


lemma sum_list_bools_one:
  assumes "\<And>x. x \<in> set xs \<Longrightarrow> f x = 0 \<or> f x = (1::int)" and "distinct xs"
  shows "sum_list (map f xs) = 1 \<longleftrightarrow> (\<exists>!x. x \<in> set xs \<and> f x = 1)"
  using assms
proof (induction xs)
  case Nil
  then show ?case by auto
next
  case (Cons a xs)
  have ih: "sum_list (map f xs) = 1 \<longleftrightarrow> (\<exists>!x. x \<in> set xs \<and> f x = 1)"
    using Cons by simp
  have bool: "\<And>x. x \<in> set xs \<Longrightarrow> f x = 0 \<or> f x = 1"
    using Cons.prems(1) by simp
  have pos: "\<And>x. x \<in> set xs \<Longrightarrow> 0 \<le> f x"
    using bool by fastforce
  have zero: "sum_list (map f xs) = 0 \<longleftrightarrow> (\<forall>x\<in>set xs. f x = 0)"
    using pos by (subst sum_list_nonneg_eq_0_iff) auto
  consider "f a = 0" | "f a = 1" using Cons.prems(1) [of a] by auto
  then show ?case
  proof cases
    case 1
    then have "(\<exists>!x. x \<in> set (a # xs) \<and> f x = 1) \<longleftrightarrow> (\<exists>!x. x \<in> set xs \<and> f x = 1)"
      by auto
    then show ?thesis using 1 ih by simp
  next
    case 2
    have "(\<exists>!x. x \<in> set (a # xs) \<and> f x = 1) \<longleftrightarrow> (\<forall>x\<in>set xs. f x = 0)"
    proof
      assume u: "\<exists>!x. x \<in> set (a # xs) \<and> f x = 1"
      show "\<forall>x\<in>set xs. f x = 0"
      proof
        fix x assume x: "x \<in> set xs"
        then have "x \<noteq> a" using Cons.prems(2) by auto
        then have "f x \<noteq> 1" using u 2 x by auto
        then show "f x = 0" using Cons.prems(1) [of x] x by auto
      qed
    next
      assume "\<forall>x\<in>set xs. f x = 0"
      then show "\<exists>!x. x \<in> set (a # xs) \<and> f x = 1" using 2 by auto
    qed
    then show ?thesis using 2 zero by simp
  qed
qed


lemma is_assigned_var_ge: "n + T \<le> is_assigned_var n T M i j"
  by (simp add: is_assigned_var_def)

lemma is_assigned_var_less:
  "i < k \<Longrightarrow> nat j < M \<Longrightarrow> is_assigned_var n T M i j < n + (T + k * M)"
proof -
  assume i: "i < k" and j: "nat j < M"
  have "i * M + nat j < i * M + M" using j by simp
  also have "\<dots> = Suc i * M" by simp
  also have "\<dots> \<le> k * M" using i by (intro mult_le_mono1) simp
  finally show ?thesis by (simp add: is_assigned_var_def)
qed

lemma ball_enumerate:
  "(\<forall>x\<in>set (enumerate 0 xs). P (fst x) (snd x)) \<longleftrightarrow> (\<forall>p<length xs. P p (xs ! p))"
proof
  assume a: "\<forall>x\<in>set (enumerate 0 xs). P (fst x) (snd x)"
  show "\<forall>p<length xs. P p (xs ! p)"
  proof (intro allI impI)
    fix p assume "p < length xs"
    then have "(p, xs ! p) \<in> set (enumerate 0 xs)" by (simp add: in_set_enumerate_eq)
    then show "P p (xs ! p)" using a by fastforce
  qed
next
  assume "\<forall>p<length xs. P p (xs ! p)"
  then show "\<forall>x\<in>set (enumerate 0 xs). P (fst x) (snd x)"
    by (auto simp: in_set_enumerate_eq)
qed

lemma holds_table_constraints:
  "list_all (holds \<sigma>) (table_constraints n variables tuples option) \<longleftrightarrow>
     (\<sigma> option = 1 \<longrightarrow>
        (\<forall>i<length variables. \<forall>j\<in>set [0..list_max (map list_max tuples)].
           j \<notin> (\<lambda>t. t ! i) ` set tuples \<longrightarrow>
           \<sigma> (is_assigned_var n (length tuples) (nat (list_max (map list_max tuples) + 1)) i j) = 0))
   \<and> (\<sigma> option = 1 \<longrightarrow>
        (\<forall>i<length variables.
           sum_list (map (\<lambda>j. \<sigma> (is_assigned_var n (length tuples) (nat (list_max (map list_max tuples) + 1)) i j))
                      [0..list_max (map list_max tuples)]) = 1))
   \<and> (\<forall>i<length variables. \<forall>j\<in>set [0..list_max (map list_max tuples)].
         \<sigma> (is_assigned_var n (length tuples) (nat (list_max (map list_max tuples) + 1)) i j) = 1 \<longrightarrow>
         \<sigma> (variables ! i) = j)
   \<and> (\<forall>p<length tuples. \<sigma> (n + p) = 1 \<longrightarrow>
         (\<forall>j<length (tuples ! p).
            \<sigma> (is_assigned_var n (length tuples) (nat (list_max (map list_max tuples) + 1)) j (tuples ! p ! j)) = 1))
   \<and> (\<sigma> option = 1 \<longrightarrow> sum_list (map \<sigma> [n..<n + length tuples]) = 1)"
  (is "?L \<longleftrightarrow> ?A \<and> ?B \<and> ?C \<and> ?D \<and> ?E")
proof -
  let ?mx = "list_max (map list_max tuples)"
  let ?ia = "is_assigned_var n (length tuples) (nat (?mx + 1))"
  have a: "list_all (holds \<sigma>) (concat (map (\<lambda>i. concat (map (\<lambda>j.
          if j \<in> (\<lambda>t. t ! i) ` set tuples then []
          else [Add (Eq (Var (?ia i j)) (Const 0)) (Some (Pos option))])
        [0..?mx])) [0..<length variables])) \<longleftrightarrow> ?A"
    by (auto simp: list_all_iff)
  have b: "list_all (holds \<sigma>) (map (\<lambda>i. Add (Eq (LinSum (map Var (map (?ia i) [0..?mx]))) (Const 1))
                 (Some (Pos option))) [0..<length variables]) \<longleftrightarrow> ?B"
    by (auto simp: list_all_iff comp_def)
  have c: "list_all (holds \<sigma>) (concat (map (\<lambda>i. map (\<lambda>j.
          Add (Eq (Var (variables ! i)) (Const j)) (Some (Pos (?ia i j))))
        [0..?mx]) [0..<length variables])) \<longleftrightarrow> ?C"
    by (auto simp: list_all_iff)
  have d: "list_all (holds \<sigma>) (map (\<lambda>it. AddBoolAnd (map (\<lambda>j. Pos (?ia j (snd it ! j))) [0..<length (snd it)])
                  (Some (Pos (n + fst it)))) (enumerate 0 tuples)) \<longleftrightarrow> ?D"
  proof -
    have "list_all (holds \<sigma>) (map (\<lambda>it. AddBoolAnd (map (\<lambda>j. Pos (?ia j (snd it ! j))) [0..<length (snd it)])
                  (Some (Pos (n + fst it)))) (enumerate 0 tuples))
      \<longleftrightarrow> (\<forall>x\<in>set (enumerate 0 tuples).
            (\<lambda>p t. \<sigma> (n + p) = 1 \<longrightarrow> (\<forall>j<length t. \<sigma> (?ia j (t ! j)) = 1)) (fst x) (snd x))"
      by (simp add: list_all_iff Ball_def [of "{0..<_}"])
    also have "\<dots> \<longleftrightarrow> ?D" by (rule ball_enumerate)
    finally show ?thesis .
  qed
  have e: "list_all (holds \<sigma>) [Add (Eq (LinSum (map Var [n..<n + length tuples])) (Const 1)) (Some (Pos option))] \<longleftrightarrow> ?E"
    by (simp add: comp_def)
  show ?thesis
    unfolding table_constraints_def Let_def list_all_append a b c d e ..
qed








lemma table_added:
  assumes "tuples \<noteq> []" and "variables \<noteq> []"
    and "\<forall>t\<in>set tuples. length t = length variables"
    and "\<forall>t\<in>set tuples. \<forall>x\<in>set t. 0 \<le> x"
  shows "\<exists>m'. table m variables tuples option = Inr m'
           \<and> drop (length (domains m)) (domains m') =
               replicate (length tuples + length variables * nat (list_max (map list_max tuples) + 1)) (0, 1)
           \<and> drop (length (constraints m)) (constraints m') =
               table_constraints (length (domains m)) variables tuples option"
  by (simp add: table_closed [OF assms])







section \<open>The link between an indicator and its variable\<close>

lemma table_is_assigned_closed:
  assumes ne: "tuples \<noteq> []" and vs: "variables \<noteq> []"
    and len: "\<forall>t\<in>set tuples. length t = length variables"
  shows "table_is_assigned m variables tuples =
           Inr (map (\<lambda>i. map (is_assigned_var (length (domains m)) (length tuples)
                               (nat (list_max (map list_max tuples) + 1)) i)
                          [0..list_max (map list_max tuples)]) [0..<length variables])"
proof -
  let ?mx = "list_max (map list_max tuples)"
  have tne: "\<And>t. t \<in> set tuples \<Longrightarrow> t \<noteq> []" using len vs by fastforce
  obtain t0 where t0: "t0 \<in> set tuples" using ne by (cases tuples) auto
  obtain x0 where x0: "x0 \<in> set t0" using tne [OF t0] by (cases t0) auto
  have s2: "collect py_max tuples = Inr (map list_max tuples)"
    by (intro collect_pure py_max_nonempty tne)
  have s3: "py_max (map list_max tuples) = Inr ?mx"
    using ne by (intro py_max_nonempty) simp
  show ?thesis
  proof (cases "0 \<le> ?mx + 1")
    case True
    show ?thesis
      unfolding table_is_assigned_def new_bool_vars s2 s3 prod.case bind_err_Inr new_bool_vars2
      using True by (simp add: is_assigned_row add.assoc)
  next
    case False
    then have "[0..?mx] = []" "nat (?mx + 1) = 0" by simp_all
    then show ?thesis
      unfolding table_is_assigned_def new_bool_vars s2 s3 prod.case bind_err_Inr new_bool_vars2
      by simp
  qed
qed

text \<open>
  C2, as the code has it. \<^verbatim>\<open>model.Add(variables[i] == j).OnlyEnforceIf(is_assigned[i][j])\<close>
  is an implication from the indicator to the equality. In every assignment that satisfies
  what \<^verbatim>\<open>table\<close> posted, an indicator that is true has its variable equal to its value; the
  converse holds when the guard is true, by the guarded sum over the indicators of the
  variable.
\<close>

theorem is_assigned_implies_value:
  assumes "tuples \<noteq> []" and "variables \<noteq> []"
    and "\<forall>t\<in>set tuples. length t = length variables"
    and "\<forall>t\<in>set tuples. \<forall>x\<in>set t. 0 \<le> x"
  shows "\<exists>m' is_assigned. table m variables tuples option = Inr m'
     \<and> table_is_assigned m variables tuples = Inr is_assigned
     \<and> length is_assigned = length variables
     \<and> (\<forall>\<sigma>. in_domains \<sigma> (length (domains m)) (drop (length (domains m)) (domains m'))
            \<and> list_all (holds \<sigma>) (drop (length (constraints m)) (constraints m'))
          \<longrightarrow> (\<forall>i<length variables. \<forall>j<length (is_assigned ! i).
                 (\<sigma> (is_assigned ! i ! j) = 1 \<longrightarrow> \<sigma> (variables ! i) = int j)
               \<and> (\<sigma> option = 1 \<longrightarrow>
                    (\<sigma> (is_assigned ! i ! j) = 1 \<longleftrightarrow> \<sigma> (variables ! i) = int j))))"
proof -
  let ?n = "length (domains m)"
  let ?T = "length tuples"
  let ?mx = "list_max (map list_max tuples)"
  let ?M = "nat (?mx + 1)"
  let ?ia = "is_assigned_var ?n ?T ?M"
  let ?is = "map (\<lambda>i. map (?ia i) [0..?mx]) [0..<length variables]"
  obtain m' where tab: "table m variables tuples option = Inr m'"
    and dom: "drop ?n (domains m') = replicate (?T + length variables * ?M) (0, 1)"
    and con: "drop (length (constraints m)) (constraints m') = table_constraints ?n variables tuples option"
    using table_added [OF assms] by blast
  have isa: "table_is_assigned m variables tuples = Inr ?is"
    using assms(1,2,3) by (rule table_is_assigned_closed)
  have lrow: "\<And>i. i < length variables \<Longrightarrow> length (?is ! i) = ?M" by simp
  have nth_upto': "\<And>j. j < ?M \<Longrightarrow> [0..?mx] ! j = int j" by (simp add: nth_upto)
  have entry: "\<And>i j. i < length variables \<Longrightarrow> j < ?M \<Longrightarrow> ?is ! i ! j = ?ia i (int j)"
    by (simp add: nth_upto')
  have main: "(\<sigma> (?is ! i ! j) = 1 \<longrightarrow> \<sigma> (variables ! i) = int j)
               \<and> (\<sigma> option = 1 \<longrightarrow> (\<sigma> (?is ! i ! j) = 1 \<longleftrightarrow> \<sigma> (variables ! i) = int j))"
    if d: "in_domains \<sigma> ?n (drop ?n (domains m'))"
      and h: "list_all (holds \<sigma>) (drop (length (constraints m)) (constraints m'))"
      and i: "i < length variables" and j0: "j < length (?is ! i)" for \<sigma> i j
  proof -
    have j: "j < ?M" using j0 i by simp
    have jr: "int j \<in> set [0..?mx]" using j by simp
    note H = h [unfolded con holds_table_constraints]
    have B: "\<sigma> option = 1 \<Longrightarrow> sum_list (map (\<lambda>j. \<sigma> (?ia i j)) [0..?mx]) = 1"
      using H [THEN conjunct2, THEN conjunct1] i by simp
    have C: "\<And>j. j \<in> set [0..?mx] \<Longrightarrow> \<sigma> (?ia i j) = 1 \<Longrightarrow> \<sigma> (variables ! i) = j"
      using H [THEN conjunct2, THEN conjunct2, THEN conjunct1] i by simp
    have bool: "\<And>v. ?n \<le> v \<Longrightarrow> v < ?n + (?T + length variables * ?M) \<Longrightarrow> \<sigma> v = 0 \<or> \<sigma> v = 1"
      using d unfolding dom in_domains_bools by simp
    have one: "\<sigma> (?ia i (int j)) = 1 \<Longrightarrow> \<sigma> (variables ! i) = int j"
      using C [OF jr] .
    have conv: "\<sigma> (?ia i (int j)) = 1" if g: "\<sigma> option = 1" and v: "\<sigma> (variables ! i) = int j"
    proof -
      have "sum_list (map (\<lambda>j. \<sigma> (?ia i j)) [0..?mx]) = 1
              \<longleftrightarrow> (\<exists>!x. x \<in> set [0..?mx] \<and> \<sigma> (?ia i x) = 1)"
      proof (rule sum_list_bools_one)
        fix x assume "x \<in> set [0..?mx]"
        then have x: "nat x < ?M" by simp
        have "?n \<le> ?ia i x" using is_assigned_var_ge [of ?n ?T ?M i x] by simp
        moreover have "?ia i x < ?n + (?T + length variables * ?M)"
          using i x by (rule is_assigned_var_less)
        ultimately show "\<sigma> (?ia i x) = 0 \<or> \<sigma> (?ia i x) = 1" by (rule bool)
      qed simp
      then obtain x where x: "x \<in> set [0..?mx]" "\<sigma> (?ia i x) = 1"
        using B [OF g] unfolding Ex1_def by blast
      have "\<sigma> (variables ! i) = x" using x by (rule C)
      then have "x = int j" using v by simp
      then show ?thesis using x(2) by simp
    qed
    show ?thesis unfolding entry [OF i j] using one conv by blast
  qed
  have "length ?is = length variables" by simp
  with tab isa main show ?thesis by blast
qed


lemma table_one_tuple:
  "table \<lparr>domains = [(0, 5), (0, 1)], constraints = []\<rparr> [0] [[1]] 1 =
     Inr \<lparr>domains = [(0, 5), (0, 1), (0, 1), (0, 1), (0, 1)],
          constraints =
            [Add (Eq (Var 3) (Const 0)) (Some (Pos 1)),
             Add (Eq (LinSum [Var 3, Var 4]) (Const 1)) (Some (Pos 1)),
             Add (Eq (Var 0) (Const 0)) (Some (Pos 3)),
             Add (Eq (Var 0) (Const 1)) (Some (Pos 4)),
             AddBoolAnd [Pos 4] (Some (Pos 2)),
             Add (Eq (LinSum [Var 2]) (Const 1)) (Some (Pos 1))]\<rparr>"
  by (simp add: table_eval cong: eval_cong)

lemma table_is_assigned_one_tuple:
  "table_is_assigned \<lparr>domains = [(0, 5), (0, 1)], constraints = []\<rparr> [0] [[1]] = Inr [[3, 4]]"
  by (simp add: table_is_assigned_def table_eval cong: eval_cong)

theorem is_assigned_implies_value_witness:
  "\<exists>m' is_assigned. table \<lparr>domains = [(0, 5), (0, 1)], constraints = []\<rparr> [0] [[1]] 1 = Inr m'
     \<and> table_is_assigned \<lparr>domains = [(0, 5), (0, 1)], constraints = []\<rparr> [0] [[1]] = Inr is_assigned
     \<and> in_domains (nth [1, 1, 1, 0, 1]) 2 (drop 2 (domains m'))
     \<and> list_all (holds (nth [1, 1, 1, 0, 1])) (constraints m')
     \<and> nth [1, 1, 1, 0, 1 :: int] 1 = 1
     \<and> nth [1, 1, 1, 0, 1 :: int] ([0] ! 0) = 1
     \<and> nth [1, 1, 1, 0, 1 :: int] (is_assigned ! 0 ! 1) = 1"
proof -
  let ?m = "\<lparr>domains = [(0, 5), (0, 1)], constraints = []\<rparr>"
  let ?\<sigma> = "nth [1, 1, 1, 0, 1 :: int]"
  have p1: "[[1 :: int]] \<noteq> []" and p2: "[0 :: nat] \<noteq> []" by simp_all
  have p3: "\<forall>t\<in>set [[1 :: int]]. length t = length [0 :: nat]" by simp
  have p4: "\<forall>t\<in>set [[1 :: int]]. \<forall>x\<in>set t. 0 \<le> x" by simp
  from is_assigned_implies_value [OF p1 p2 p3 p4, of ?m 1]
  obtain m' is_assigned where t: "table ?m [0] [[1]] 1 = Inr m'"
    and i: "table_is_assigned ?m [0] [[1]] = Inr is_assigned"
    and l: "\<forall>\<sigma>. in_domains \<sigma> (length (domains ?m)) (drop (length (domains ?m)) (domains m'))
            \<and> list_all (holds \<sigma>) (drop (length (constraints ?m)) (constraints m'))
          \<longrightarrow> (\<forall>i<length [0 :: nat]. \<forall>j<length (is_assigned ! i).
                 (\<sigma> (is_assigned ! i ! j) = 1 \<longrightarrow> \<sigma> ([0] ! i) = int j)
               \<and> (\<sigma> 1 = 1 \<longrightarrow> (\<sigma> (is_assigned ! i ! j) = 1 \<longleftrightarrow> \<sigma> ([0] ! i) = int j)))"
    by blast
  have m': "m' = \<lparr>domains = [(0, 5), (0, 1), (0, 1), (0, 1), (0, 1)],
          constraints =
            [Add (Eq (Var 3) (Const 0)) (Some (Pos 1)),
             Add (Eq (LinSum [Var 3, Var 4]) (Const 1)) (Some (Pos 1)),
             Add (Eq (Var 0) (Const 0)) (Some (Pos 3)),
             Add (Eq (Var 0) (Const 1)) (Some (Pos 4)),
             AddBoolAnd [Pos 4] (Some (Pos 2)),
             Add (Eq (LinSum [Var 2]) (Const 1)) (Some (Pos 1))]\<rparr>"
    using t unfolding table_one_tuple by simp
  have isa: "is_assigned = [[3, 4]]" using i unfolding table_is_assigned_one_tuple by simp
  have d: "in_domains ?\<sigma> 2 (drop 2 (domains m'))" unfolding m' by (simp add: eval_nat_numeral)
  have h: "list_all (holds ?\<sigma>) (constraints m')" unfolding m' by (simp add: eval_nat_numeral)
  have "length (domains ?m) = 2" by simp
  then have d0: "in_domains ?\<sigma> (length (domains ?m)) (drop (length (domains ?m)) (domains m'))"
    using d by (simp only:)
  have h0: "list_all (holds ?\<sigma>) (drop (length (constraints ?m)) (constraints m'))"
    using h by simp
  have "(?\<sigma> (is_assigned ! 0 ! 1) = 1 \<longrightarrow> ?\<sigma> ([0] ! 0) = int 1)
      \<and> (?\<sigma> 1 = 1 \<longrightarrow> (?\<sigma> (is_assigned ! 0 ! 1) = 1 \<longleftrightarrow> ?\<sigma> ([0] ! 0) = int 1))"
    by (rule l [rule_format, OF conjI [OF d0 h0]]) (simp_all add: isa)
  then have "?\<sigma> (is_assigned ! 0 ! 1) = 1" by simp
  with t i d h show ?thesis by simp
qed

text \<open>
  C2, as the specification has it, fails: the link is not bidirectional. After
  \<^verbatim>\<open>table(model, [x], [[1]], option)\<close> on a model with \<open>x\<close> in \<open>0..5\<close> (variable 0) and the
  guard (variable 1), the assignment \<open>x = 1\<close> with the guard and every new boolean false is a
  solution of the model, yet \<^verbatim>\<open>is_assigned[0][1]\<close> (variable 4) is false while
  \<^verbatim>\<open>variables[0] == 1\<close>.
\<close>

theorem is_assigned_not_bidirectional:
  "table \<lparr>domains = [(0, 5), (0, 1)], constraints = []\<rparr> [0] [[1]] 1 =
     Inr \<lparr>domains = [(0, 5), (0, 1), (0, 1), (0, 1), (0, 1)],
          constraints =
            [Add (Eq (Var 3) (Const 0)) (Some (Pos 1)),
             Add (Eq (LinSum [Var 3, Var 4]) (Const 1)) (Some (Pos 1)),
             Add (Eq (Var 0) (Const 0)) (Some (Pos 3)),
             Add (Eq (Var 0) (Const 1)) (Some (Pos 4)),
             AddBoolAnd [Pos 4] (Some (Pos 2)),
             Add (Eq (LinSum [Var 2]) (Const 1)) (Some (Pos 1))]\<rparr>
   \<and> table_is_assigned \<lparr>domains = [(0, 5), (0, 1)], constraints = []\<rparr> [0] [[1]] = Inr [[3, 4]]
   \<and> solution (nth [1, 0, 0, 0, 0])
        \<lparr>domains = [(0, 5), (0, 1), (0, 1), (0, 1), (0, 1)],
          constraints =
            [Add (Eq (Var 3) (Const 0)) (Some (Pos 1)),
             Add (Eq (LinSum [Var 3, Var 4]) (Const 1)) (Some (Pos 1)),
             Add (Eq (Var 0) (Const 0)) (Some (Pos 3)),
             Add (Eq (Var 0) (Const 1)) (Some (Pos 4)),
             AddBoolAnd [Pos 4] (Some (Pos 2)),
             Add (Eq (LinSum [Var 2]) (Const 1)) (Some (Pos 1))]\<rparr>
   \<and> nth [1, 0, 0, 0, 0 :: int] ([0] ! 0) = 1
   \<and> nth [1, 0, 0, 0, 0 :: int] ([[3, 4]] ! 0 ! 1) \<noteq> 1"
  unfolding table_one_tuple table_is_assigned_one_tuple
  by (simp add: solution_def eval_nat_numeral)

end
